theory Spec2Isabelle
  imports Main "HOL-Library.Word" "HOL-Library.AList" "HOL-Library.Signed_Division"
begin

unbundle bit_operations_syntax

section \<open>The resolver of \<open>pmtiles/convert.go\<close>\<close>

text \<open>
  The development follows \<open>src/pmtiles/convert.go\<close>. Go's \<open>uint64\<close>, \<open>uint32\<close> and
  \<open>uint8\<close> are words of that width, so every \<open>+\<close> below wraps exactly as the Go
  operator does; a \<open>[]byte\<close> is a list of 8-bit words; a panic is a value of the
  type \<open>panic\<close>, returned on the left of a sum.
\<close>

type_synonym byte = "8 word"
type_synonym bytes = "byte list"
type_synonym uint8 = "8 word"
type_synonym uint32 = "32 word"
type_synonym uint64 = "64 word"
type_synonym int32 = "32 word"
type_synonym int64 = "64 word"

text \<open>\<open>type offsetLen struct { Offset uint64; Length uint32 }\<close>\<close>

record offsetLen =
  ol_Offset :: uint64
  ol_Length :: uint32

text \<open>
  Modelled from the spec: the declaration of \<open>EntryV3\<close> is not in \<open>convert.go\<close>. The
  spec's TileEntry is \<open>{TileID, Offset, Length, RunLength}\<close>; the positional literals
  \<open>EntryV3{tileID, r.Offset, uint32(len(newData)), runLength}\<close> of the source fix the
  order and the widths of the fields.
\<close>

record EntryV3 =
  TileID :: uint64
  Offset :: uint64
  Length :: uint32
  RunLength :: uint32

text \<open>
  \<open>type resolver struct\<close>. The map \<open>OffsetMap map[string]offsetLen\<close> is an association
  list kept with distinct keys by \<open>AList.update\<close>, so that \<open>len(r.OffsetMap)\<close> is its
  length. The scratch fields \<open>compressor\<close>, \<open>compressTmp\<close> and \<open>hashfunc\<close> come from
  Go's standard library (\<open>compress/gzip\<close>, \<open>hash/fnv\<close>); they are reset before each
  use, so all the resolver sees of them is a function from the tile bytes to the
  compressed bytes, and one from the tile bytes to the digest. Both are fields of the
  record, as in the source, and every theorem below holds for any such pair.
\<close>

record resolver =
  deduplicate :: bool
  compress :: bool
  Entries :: "EntryV3 list"
  r_Offset :: uint64
  OffsetMap :: "(bytes \<times> offsetLen) list"
  AddressedTiles :: uint64
  compressor :: "bytes \<Rightarrow> bytes"
  hashfunc :: "bytes \<Rightarrow> bytes"

datatype panic = IndexOutOfRange | RunLengthExceeded

text \<open>\<open>func (r *resolver) NumContents() uint64\<close>\<close>

definition NumContents :: "resolver \<Rightarrow> uint64" where
  "NumContents r =
     (if deduplicate r then of_nat (length (OffsetMap r)) else AddressedTiles r)"

text \<open>
  \<open>func newResolver(deduplicate bool, compress bool) *resolver\<close>. The gzip writer at
  \<open>gzip.BestCompression\<close> and \<open>fnv.New128a()\<close> that the source creates here are the
  two leading arguments.
\<close>

definition newResolver :: "(bytes \<Rightarrow> bytes) \<Rightarrow> (bytes \<Rightarrow> bytes) \<Rightarrow> bool \<Rightarrow> bool \<Rightarrow> resolver" where
  "newResolver gz h dedup compr =
     \<lparr>deduplicate = dedup, compress = compr, Entries = [], r_Offset = 0, OffsetMap = [],
      AddressedTiles = 0, compressor = gz, hashfunc = h\<rparr>"

text \<open>
  The test \<open>!r.compress || (len(data) >= 2 && data[0] == 31 && data[1] == 139)\<close> and the
  two branches that compute \<open>newData\<close>.
\<close>

definition newData_of :: "resolver \<Rightarrow> bytes \<Rightarrow> bytes" where
  "newData_of r data =
     (if \<not> compress r \<or> (length data \<ge> 2 \<and> data ! 0 = 31 \<and> data ! 1 = 139)
      then data else compressor r data)"

text \<open>
  \<open>func (r *resolver) AddTileIsNew(tileID uint64, data []byte, runLength uint32) (bool, []byte)\<close>.
  The result is the updated resolver with the two returned values, or the panic.

  \<^item> \<open>r.AddressedTiles++\<close> is the first statement.
  \<^item> \<open>r.Entries[len(r.Entries)-1]\<close> panics on an empty slice.
  \<^item> In \<open>lastEntry.RunLength+runLength > math.MaxUint32\<close> both operands are \<open>uint32\<close>,
    so Go computes the sum in \<open>uint32\<close> and converts the untyped constant to
    \<open>uint32\<close>: the comparison is one of 32-bit words.
  \<^item> \<open>uint32(len(newData))\<close> and \<open>uint64(len(newData))\<close> are \<open>of_nat\<close> at the two widths.
  \<^item> The \<open>nil\<close> slice returned on a dedup hit is the empty list.
\<close>

definition AddTileIsNew ::
  "resolver \<Rightarrow> uint64 \<Rightarrow> bytes \<Rightarrow> uint32 \<Rightarrow> panic + (resolver \<times> bool \<times> bytes)" where
  "AddTileIsNew r0 tileID data runLength =
     (let r = r0\<lparr>AddressedTiles := AddressedTiles r0 + 1\<rparr>;
          sumString = hashfunc r data;
          lookup = (if deduplicate r then map_of (OffsetMap r) sumString else None)
      in case lookup of
           Some found \<Rightarrow>
             (if Entries r = [] then Inl IndexOutOfRange
              else
                let lastEntry = Entries r ! (length (Entries r) - 1) in
                if tileID = TileID lastEntry + ucast (RunLength lastEntry)
                   \<and> Offset lastEntry = ol_Offset found
                then
                  (if RunLength lastEntry + runLength > (0xFFFFFFFF :: uint32)
                   then Inl RunLengthExceeded
                   else Inr (r\<lparr>Entries := (Entries r)[length (Entries r) - 1 :=
                                  lastEntry\<lparr>RunLength := RunLength lastEntry + runLength\<rparr>]\<rparr>,
                             False, []))
                else
                  Inr (r\<lparr>Entries := Entries r @
                          [\<lparr>TileID = tileID, Offset = ol_Offset found,
                            Length = ol_Length found, RunLength = runLength\<rparr>]\<rparr>,
                       False, []))
         | None \<Rightarrow>
             (let newData = newData_of r data;
                  r1 = (if deduplicate r
                        then r\<lparr>OffsetMap := AList.update sumString
                                 \<lparr>ol_Offset = r_Offset r, ol_Length = of_nat (length newData)\<rparr>
                                 (OffsetMap r)\<rparr>
                        else r);
                  r2 = r1\<lparr>Entries := Entries r1 @
                          [\<lparr>TileID = tileID, Offset = r_Offset r1,
                            Length = of_nat (length newData), RunLength = runLength\<rparr>]\<rparr>;
                  r3 = r2\<lparr>r_Offset := r_Offset r2 + of_nat (length newData)\<rparr>
              in Inr (r3, True, newData)))"

text \<open>
  The callers feed the resolver in a loop, one call per tile, and stop at a panic.
  \<open>feed\<close> is that loop over the calls \<open>(tileID, data, runLength)\<close>.
\<close>

type_synonym call = "uint64 \<times> bytes \<times> uint32"

fun feed :: "resolver \<Rightarrow> call list \<Rightarrow> panic + resolver" where
  "feed r [] = Inr r"
| "feed r ((tileID, data, runLength) # cs) =
     (case AddTileIsNew r tileID data runLength of
        Inl p \<Rightarrow> Inl p
      | Inr (r', isNew, newData) \<Rightarrow> feed r' cs)"

text \<open>
  Two sample functions for the scratch fields, used where a statement is evaluated on
  a concrete resolver: a digest that is the content itself, and a compressor that
  puts the two gzip magic bytes in front of the content.
\<close>

definition sample_digest :: "bytes \<Rightarrow> bytes" where
  "sample_digest data = data"

definition sample_gzip :: "bytes \<Rightarrow> bytes" where
  "sample_gzip data = 31 # 139 # data"

text \<open>The content \<open>"AAAA"\<close>.\<close>

definition AAAA :: bytes where
  "AAAA = [65, 65, 65, 65]"

section \<open>The archive assembler\<close>

text \<open>
  Modelled from the spec: the declarations of \<open>HeaderV3\<close>, of the compression and
  tile-type tags and of \<open>HeaderV3LenBytes\<close> are not in \<open>convert.go\<close>. The spec's
  ArchiveHeader holds the aggregate counts, the bounding box, the zoom range, the
  centre, the compression and tile-type tags and the offset and length of each
  section; the record has the fields that \<open>convert.go\<close> reads or writes, at the
  widths the source uses them with. The first constructor of each tag is Go's zero
  value, which \<open>HeaderV3{}\<close> starts with.
\<close>

datatype Compression = UnknownCompression | NoCompression | Gzip

datatype TileType = UnknownTileType | Mvt | Png | Jpeg | Webp | Avif

record HeaderV3 =
  RootOffset :: uint64
  RootLength :: uint64
  MetadataOffset :: uint64
  MetadataLength :: uint64
  LeafDirectoryOffset :: uint64
  LeafDirectoryLength :: uint64
  TileDataOffset :: uint64
  TileDataLength :: uint64
  AddressedTilesCount :: uint64
  TileEntriesCount :: uint64
  TileContentsCount :: uint64
  Clustered :: bool
  InternalCompression :: Compression
  TileCompression :: Compression
  TileType :: TileType
  MinZoom :: uint8
  MaxZoom :: uint8
  MinLonE7 :: int32
  MinLatE7 :: int32
  MaxLonE7 :: int32
  MaxLatE7 :: int32
  CenterZoom :: uint8
  CenterLonE7 :: int32
  CenterLatE7 :: int32

text \<open>
  What a Go function hands back besides its value: an \<open>error\<close> carrying the message
  of its \<open>fmt.Errorf\<close> (without the wrapped cause), or a panic that unwinds the caller.
\<close>

datatype failure = Error string | Panic panic

text \<open>
  The two files the forward pipeline writes: the content spool \<open>tmpfile\<close>, and the
  output archive, \<open>None\<close> until \<open>os.Create(output)\<close> has made it.
\<close>

record world =
  tmpfile :: bytes
  outfile :: "bytes option"

datatype out_stage = WriteHeader | WriteRoot | WriteMetadata | WriteLeaves

text \<open>
  The collaborators of the spec's section 6 and the outcomes of the system calls, as
  the forward pipeline uses them. \<open>ZxyToID\<close>, \<open>IDToZxy\<close>, \<open>optimizeDirectories\<close> (at
  its fixed arguments \<open>16384-HeaderV3LenBytes\<close> and \<open>Gzip\<close>), \<open>SerializeMetadata\<close>
  and \<open>SerializeHeader\<close> are functions of this repository outside \<open>convert.go\<close>;
  \<open>gzip_best\<close> and \<open>fnv128a\<close> are the gzip writer at \<open>gzip.BestCompression\<close> and the
  digest \<open>fnv.New128a()\<close> that \<open>newResolver\<close> sets up. The type \<open>'j\<close> is the one of
  the JSON metadata handed to \<open>SerializeMetadata\<close>. The remaining fields say which system call fails: creating
  the output, a write to the spool when it holds \<open>n\<close> bytes, each of the four section
  writes, the seek back to the start of the spool and the final copy.
\<close>

record 'j env =
  ZxyToID :: "uint8 \<Rightarrow> uint32 \<Rightarrow> uint32 \<Rightarrow> uint64"
  IDToZxy :: "uint64 \<Rightarrow> uint8 \<times> uint32 \<times> uint32"
  optimizeDirectories :: "EntryV3 list \<Rightarrow> bytes \<times> bytes \<times> nat"
  SerializeMetadata :: "'j \<Rightarrow> bytes option"
  SerializeHeader :: "HeaderV3 \<Rightarrow> bytes"
  HeaderV3LenBytes :: uint64
  gzip_best :: "bytes \<Rightarrow> bytes"
  fnv128a :: "bytes \<Rightarrow> bytes"
  create_fails :: bool
  tmp_write_fails :: "nat \<Rightarrow> bool"
  out_write_fails :: "out_stage \<Rightarrow> bool"
  tmp_seek_fails :: bool
  copy_fails :: bool

text \<open>
  \<open>a / 2\<close> on an \<open>int32\<close>: the word is read as two's complement and the quotient
  truncates towards zero.
\<close>

definition half_int32 :: "int32 \<Rightarrow> int32" where
  "half_int32 a = word_of_int (sint a sdiv 2)"

text \<open>
  \<open>func setZoomCenterDefaults(header *HeaderV3, entries []EntryV3)\<close>. \<open>entries[0]\<close>
  panics on an empty slice. The two sums are \<open>int32\<close> additions, which wrap.
\<close>

definition setZoomCenterDefaults ::
  "(uint64 \<Rightarrow> uint8 \<times> uint32 \<times> uint32) \<Rightarrow> HeaderV3 \<Rightarrow> EntryV3 list \<Rightarrow> panic + HeaderV3" where
  "setZoomCenterDefaults idToZxy header entries =
     (if entries = [] then Inl IndexOutOfRange
      else
        let minZ = fst (idToZxy (TileID (entries ! 0)));
            h1 = header\<lparr>MinZoom := minZ\<rparr>;
            maxZ = fst (idToZxy (TileID (entries ! (length entries - 1))));
            h2 = h1\<lparr>MaxZoom := maxZ\<rparr>
        in if CenterZoom h2 = 0 \<and> CenterLonE7 h2 = 0 \<and> CenterLatE7 h2 = 0
           then Inr (h2\<lparr>CenterZoom := MinZoom h2,
                        CenterLonE7 := half_int32 (MinLonE7 h2 + MaxLonE7 h2),
                        CenterLatE7 := half_int32 (MinLatE7 h2 + MaxLatE7 h2)\<rparr>)
           else Inr h2)"

text \<open>One \<open>outfile.Write\<close>; the output exists when it is called.\<close>

definition out_write :: "'j env \<Rightarrow> out_stage \<Rightarrow> bytes \<Rightarrow> world \<Rightarrow> failure + world" where
  "out_write e stage bs w =
     (if out_write_fails e stage then Inl (Error ''Failed to write header to outfile'')
      else Inr (w\<lparr>outfile := Some (case outfile w of None \<Rightarrow> bs | Some old \<Rightarrow> old @ bs)\<rparr>))"

text \<open>
  The tail of \<open>finalize\<close>, from \<open>headerBytes := SerializeHeader(header)\<close> on: the four
  writes, the seek and \<open>io.Copy(outfile, tmpfile)\<close>, each returning at its error.
\<close>

definition write_sections ::
  "'j env \<Rightarrow> HeaderV3 \<Rightarrow> bytes \<Rightarrow> bytes \<Rightarrow> bytes \<Rightarrow> world \<Rightarrow> (failure + HeaderV3) \<times> world" where
  "write_sections e header rootBytes metadataBytes leavesBytes w =
     (case out_write e WriteHeader (SerializeHeader e header) w of
        Inl f \<Rightarrow> (Inl f, w)
      | Inr w1 \<Rightarrow>
     (case out_write e WriteRoot rootBytes w1 of
        Inl f \<Rightarrow> (Inl f, w1)
      | Inr w2 \<Rightarrow>
     (case out_write e WriteMetadata metadataBytes w2 of
        Inl f \<Rightarrow> (Inl f, w2)
      | Inr w3 \<Rightarrow>
     (case out_write e WriteLeaves leavesBytes w3 of
        Inl f \<Rightarrow> (Inl f, w3)
      | Inr w4 \<Rightarrow>
        if tmp_seek_fails e then (Inl (Error ''Failed to seek to start of tempfile''), w4)
        else if copy_fails e then (Inl (Error ''Failed to copy data to outfile''), w4)
        else (Inr header,
              w4\<lparr>outfile := Some (case outfile w4 of None \<Rightarrow> tmpfile w4
                                   | Some old \<Rightarrow> old @ tmpfile w4)\<rparr>)))))"

text \<open>
  \<open>func finalize(logger, resolve, header, tmpfile, output, jsonMetadata) (HeaderV3, error)\<close>.
  The log lines are left out; the averages they print are floating-point quotients,
  and the one integer quotient is guarded by \<open>numLeaves > 0\<close>. The steps, in the
  source's order: the three counts, \<open>os.Create(output)\<close>, \<open>optimizeDirectories\<close>,
  \<open>SerializeMetadata\<close>, \<open>setZoomCenterDefaults\<close>, the flags and the section offsets,
  then the writes.
\<close>

definition finalize ::
  "'j env \<Rightarrow> resolver \<Rightarrow> HeaderV3 \<Rightarrow> 'j \<Rightarrow> world \<Rightarrow> (failure + HeaderV3) \<times> world" where
  "finalize e resolve header0 jsonMetadata w =
     (let header = header0\<lparr>AddressedTilesCount := AddressedTiles resolve,
                           TileEntriesCount := of_nat (length (Entries resolve)),
                           TileContentsCount := NumContents resolve\<rparr>
      in if create_fails e then (Inl (Error ''Failed to create''), w)
         else
           let w1 = w\<lparr>outfile := Some []\<rparr>;
               (rootBytes, leavesBytes, numLeaves) = optimizeDirectories e (Entries resolve)
           in case SerializeMetadata e jsonMetadata of
                None \<Rightarrow> (Inl (Error ''Failed to marshal metadata''), w1)
              | Some metadataBytes \<Rightarrow>
                  (case setZoomCenterDefaults (IDToZxy e) header (Entries resolve) of
                     Inl p \<Rightarrow> (Inl (Panic p), w1)
                   | Inr h1 \<Rightarrow>
                       let h2 = h1\<lparr>Clustered := True, InternalCompression := Gzip\<rparr>;
                           h3 = (if TileType h2 = Mvt then h2\<lparr>TileCompression := Gzip\<rparr> else h2);
                           h4 = h3\<lparr>RootOffset := HeaderV3LenBytes e\<rparr>;
                           h5 = h4\<lparr>RootLength := of_nat (length rootBytes)\<rparr>;
                           h6 = h5\<lparr>MetadataOffset := RootOffset h5 + RootLength h5\<rparr>;
                           h7 = h6\<lparr>MetadataLength := of_nat (length metadataBytes)\<rparr>;
                           h8 = h7\<lparr>LeafDirectoryOffset := MetadataOffset h7 + MetadataLength h7\<rparr>;
                           h9 = h8\<lparr>LeafDirectoryLength := of_nat (length leavesBytes)\<rparr>;
                           h10 = h9\<lparr>TileDataOffset := LeafDirectoryOffset h9 + LeafDirectoryLength h9\<rparr>;
                           h11 = h10\<lparr>TileDataLength := r_Offset resolve\<rparr>
                       in write_sections e h11 rootBytes metadataBytes leavesBytes w1))"

section \<open>The source adapters\<close>

subsection \<open>The relational store\<close>

text \<open>
  What the SQLite connection answers. A statement either cannot be prepared, or
  yields its rows and ends, or yields some rows and then fails a \<open>Step\<close>. The lookup
  of pass 2 is one \<open>Step\<close> of the prepared statement at the bound key: it fails, has
  no row, or has the blob. \<open>ColumnInt64\<close> and \<open>BindInt64\<close> carry an \<open>int64\<close>.
\<close>

datatype 'a query = PrepareFails | Rows "'a list" | RowsThenStepFails "'a list"

datatype tile_lookup = StepFails | NoRow | Row bytes

record mbtiles =
  conn_opens :: bool
  metadata_query :: "(string \<times> string) query"
  tiles_query :: "(int64 \<times> int64 \<times> int64) query"
  tile_data :: "int64 \<Rightarrow> int64 \<Rightarrow> int64 \<Rightarrow> tile_lookup"

text \<open>
  The loop \<open>for { row, err := stmt.Step(); ... }\<close> around a statement prepared with the
  message \<open>msg\<close> for a failing \<open>PrepareTransient\<close>.
\<close>

definition run_query :: "string \<Rightarrow> 'a query \<Rightarrow> failure + 'a list" where
  "run_query msg q =
     (case q of
        PrepareFails \<Rightarrow> Inl (Error msg)
      | Rows rs \<Rightarrow> Inr rs
      | RowsThenStepFails rs \<Rightarrow> Inl (Error ''Failed to step statement''))"

text \<open>
  \<open>flippedY := (1 << z) - 1 - y\<close> with \<open>z uint8\<close> and \<open>y uint32\<close>. The untyped
  constant \<open>1\<close> takes the type of the expression, \<open>uint32\<close>, so the shift and both
  subtractions are 32-bit; a shift count of 32 or more gives 0, as \<open>push_bit\<close> does.
\<close>

definition flippedY_of :: "uint8 \<Rightarrow> uint32 \<Rightarrow> uint32" where
  "flippedY_of z y = push_bit (unat z) 1 - 1 - y"

text \<open>
  The body of the loop of pass 1 for one row: the three conversions \<open>uint8(...)\<close>,
  \<open>uint32(...)\<close>, \<open>uint32(...)\<close> of the \<open>int64\<close> columns, the flip and \<open>ZxyToID\<close>.
\<close>

definition mbtiles_row_id ::
  "(uint8 \<Rightarrow> uint32 \<Rightarrow> uint32 \<Rightarrow> uint64) \<Rightarrow> int64 \<times> int64 \<times> int64 \<Rightarrow> uint64" where
  "mbtiles_row_id zxyToID row =
     (case row of (c0, c1, c2) \<Rightarrow>
        let z = (ucast c0 :: uint8);
            x = (ucast c1 :: uint32);
            y = (ucast c2 :: uint32);
            flippedY = flippedY_of z y
        in zxyToID z x flippedY)"

text \<open>
  The \<open>roaring64\<close> bitmap is a set of \<open>uint64\<close> iterated in ascending order: a sorted
  list without duplicates. \<open>tileset_Add\<close> is \<open>tileset.Add(id)\<close>, the length of the
  list is \<open>GetCardinality()\<close>.
\<close>

definition tileset_Add :: "uint64 \<Rightarrow> uint64 list \<Rightarrow> uint64 list" where
  "tileset_Add ident s = (if ident \<in> set s then s else insort ident s)"

definition mbtiles_pass1 ::
  "(uint8 \<Rightarrow> uint32 \<Rightarrow> uint32 \<Rightarrow> uint64) \<Rightarrow> (int64 \<times> int64 \<times> int64) list \<Rightarrow> uint64 list" where
  "mbtiles_pass1 zxyToID rows = fold (\<lambda>row s. tileset_Add (mbtiles_row_id zxyToID row) s) rows []"

text \<open>
  Pass 2, the loop \<open>for i.HasNext()\<close>: the key of the row is recomputed from the id,
  the blob is fetched, an empty blob is skipped, and the bytes of a new content go to
  the spool.
\<close>

fun mbtiles_pass2 ::
  "'j env \<Rightarrow> mbtiles \<Rightarrow> resolver \<Rightarrow> uint64 list \<Rightarrow> world \<Rightarrow> (failure + resolver) \<times> world" where
  "mbtiles_pass2 e src resolve [] w = (Inr resolve, w)"
| "mbtiles_pass2 e src resolve (ident # ids) w =
     (case IDToZxy e ident of (z, x, y) \<Rightarrow>
        let flippedY = flippedY_of z y in
        (case tile_data src (ucast z) (ucast x) (ucast flippedY) of
           StepFails \<Rightarrow> (Inl (Error ''Failed to step statement''), w)
         | NoRow \<Rightarrow> (Inl (Error ''Missing row''), w)
         | Row data \<Rightarrow>
             (if length data > 0 then
                (case AddTileIsNew resolve ident data 1 of
                   Inl p \<Rightarrow> (Inl (Panic p), w)
                 | Inr (resolve', isNew, newData) \<Rightarrow>
                     (if isNew then
                        (if tmp_write_fails e (length (tmpfile w))
                         then (Inl (Error ''Failed to write to tempfile''), w)
                         else mbtiles_pass2 e src resolve' ids (w\<lparr>tmpfile := tmpfile w @ newData\<rparr>))
                      else mbtiles_pass2 e src resolve' ids w))
              else mbtiles_pass2 e src resolve ids w)))"

text \<open>
  What \<open>parseBounds\<close>, \<open>parseCenter\<close> and \<open>mbtilesToHeaderJSON\<close> call in Go's standard
  library. Floating point is not modelled: \<open>'f\<close> is the type of the \<open>float64\<close>
  values, \<open>ParseFloat s\<close> is \<open>strconv.ParseFloat(strings.TrimSpace(s), 64)\<close> with
  \<open>None\<close> for its error, and \<open>timesE7 x\<close> is the conversion \<open>int32(x * E7)\<close>.
  \<open>ParseInt8 s\<close> is \<open>strconv.ParseInt(strings.TrimSpace(s), 10, 8)\<close>. \<open>Unmarshal s\<close>
  is the map that \<open>json.Unmarshal\<close> fills from the text; the source ignores its
  error. A value of the JSON metadata, Go's \<open>interface{}\<close>, is a string of the
  metadata table or a value \<open>'v\<close> that \<open>json.Unmarshal\<close> produced.
\<close>

record ('f, 'v) golib =
  ParseFloat :: "string \<Rightarrow> 'f option"
  timesE7 :: "'f \<Rightarrow> int32"
  ParseInt8 :: "string \<Rightarrow> int64 option"
  Unmarshal :: "string \<Rightarrow> (string \<rightharpoonup> 'v)"

datatype 'v jval = JString string | JValue 'v

type_synonym 'v json = "string \<rightharpoonup> 'v jval"

text \<open>
  \<open>strings.Split(s, ",")\<close>: the pieces between the commas, one more than there are
  commas, so at least one.
\<close>

fun split_comma :: "string \<Rightarrow> string list" where
  "split_comma [] = [[]]"
| "split_comma (c # cs) =
     (if c = CHR '','' then [] # split_comma cs
      else (case split_comma cs of
              [] \<Rightarrow> [[c]]
            | part # parts \<Rightarrow> (c # part) # parts))"

text \<open>
  One line \<open>x, err := strconv.ParseFloat(strings.TrimSpace(parts[i]), 64)\<close> with its
  \<open>if err != nil { return ..., err }\<close>: the index panics when the text has too few
  commas.
\<close>

definition float_part :: "('f, 'v) golib \<Rightarrow> string list \<Rightarrow> nat \<Rightarrow> failure + 'f" where
  "float_part g parts i =
     (if i < length parts then
        (case ParseFloat g (parts ! i) of
           None \<Rightarrow> Inl (Error ''strconv.ParseFloat'')
         | Some x \<Rightarrow> Inr x)
      else Inl (Panic IndexOutOfRange))"

text \<open>\<open>func parseBounds(bounds string) (int32, int32, int32, int32, error)\<close>\<close>

definition parseBounds ::
  "('f, 'v) golib \<Rightarrow> string \<Rightarrow> failure + (int32 \<times> int32 \<times> int32 \<times> int32)" where
  "parseBounds g bounds =
     (let parts = split_comma bounds in
      (case float_part g parts 0 of
         Inl f \<Rightarrow> Inl f
       | Inr minLon \<Rightarrow>
      (case float_part g parts 1 of
         Inl f \<Rightarrow> Inl f
       | Inr minLat \<Rightarrow>
      (case float_part g parts 2 of
         Inl f \<Rightarrow> Inl f
       | Inr maxLon \<Rightarrow>
      (case float_part g parts 3 of
         Inl f \<Rightarrow> Inl f
       | Inr maxLat \<Rightarrow>
           Inr (timesE7 g minLon, timesE7 g minLat, timesE7 g maxLon, timesE7 g maxLat))))))"

text \<open>
  \<open>func parseCenter(center string) (int32, int32, uint8, error)\<close>; the zoom is
  \<open>uint8(centerZoom)\<close> of the \<open>int64\<close> that \<open>ParseInt\<close> returns.
\<close>

definition parseCenter ::
  "('f, 'v) golib \<Rightarrow> string \<Rightarrow> failure + (int32 \<times> int32 \<times> uint8)" where
  "parseCenter g center =
     (let parts = split_comma center in
      (case float_part g parts 0 of
         Inl f \<Rightarrow> Inl f
       | Inr centerLon \<Rightarrow>
      (case float_part g parts 1 of
         Inl f \<Rightarrow> Inl f
       | Inr centerLat \<Rightarrow>
           (if 2 < length parts then
              (case ParseInt8 g (parts ! 2) of
                 None \<Rightarrow> Inl (Error ''strconv.ParseInt'')
               | Some centerZoom \<Rightarrow>
                   Inr (timesE7 g centerLon, timesE7 g centerLat, ucast centerZoom))
            else Inl (Panic IndexOutOfRange)))))"

text \<open>\<open>HeaderV3{}\<close>, every field at Go's zero value.\<close>

definition zero_header :: HeaderV3 where
  "zero_header =
     \<lparr>RootOffset = 0, RootLength = 0, MetadataOffset = 0, MetadataLength = 0,
      LeafDirectoryOffset = 0, LeafDirectoryLength = 0, TileDataOffset = 0, TileDataLength = 0,
      AddressedTilesCount = 0, TileEntriesCount = 0, TileContentsCount = 0,
      Clustered = False, InternalCompression = UnknownCompression,
      TileCompression = UnknownCompression, TileType = UnknownTileType,
      MinZoom = 0, MaxZoom = 0, MinLonE7 = 0, MinLatE7 = 0, MaxLonE7 = 0, MaxLatE7 = 0,
      CenterZoom = 0, CenterLonE7 = 0, CenterLatE7 = 0\<rparr>"

text \<open>The \<open>switch value\<close> of the case \<open>"format"\<close>.\<close>

definition set_format :: "string \<Rightarrow> HeaderV3 \<Rightarrow> HeaderV3" where
  "set_format val header =
     (if val = ''pbf'' then header\<lparr>TileType := Mvt\<rparr>
      else if val = ''png'' then header\<lparr>TileType := Png, TileCompression := NoCompression\<rparr>
      else if val = ''jpg'' then header\<lparr>TileType := Jpeg, TileCompression := NoCompression\<rparr>
      else if val = ''webp'' then header\<lparr>TileType := Webp, TileCompression := NoCompression\<rparr>
      else if val = ''avif'' then header\<lparr>TileType := Avif, TileCompression := NoCompression\<rparr>
      else header)"

text \<open>The \<open>switch value\<close> of the case \<open>"compression"\<close>.\<close>

definition set_compression :: "string \<Rightarrow> HeaderV3 \<Rightarrow> HeaderV3" where
  "set_compression val header =
     (if val = ''gzip'' then
        (if TileType header = Mvt then header\<lparr>TileCompression := Gzip\<rparr>
         else header\<lparr>TileCompression := NoCompression\<rparr>)
      else header)"

text \<open>
  The loop \<open>for i := 0; i < len(mbtilesMetadata); i += 2\<close> of
  \<open>mbtilesToHeaderJSON\<close> on the header, \<open>jsonResult\<close> and \<open>boundsSet\<close>. The read
  \<open>mbtilesMetadata[i+1]\<close> panics on a list of odd length; the comparisons of the
  bounds are those of \<open>int32\<close>, signed.
\<close>

fun mbtilesToHeaderJSON_loop ::
  "('f, 'v) golib \<Rightarrow> HeaderV3 \<times> 'v json \<times> bool \<Rightarrow> string list \<Rightarrow>
     failure + (HeaderV3 \<times> 'v json \<times> bool)" where
  "mbtilesToHeaderJSON_loop g st [] = Inr st"
| "mbtilesToHeaderJSON_loop g st [key] = Inl (Panic IndexOutOfRange)"
| "mbtilesToHeaderJSON_loop g (header, jsonResult, boundsSet) (key # val # rest) =
     (if key = ''format'' then
        mbtilesToHeaderJSON_loop g
          (set_format val header, jsonResult(''format'' \<mapsto> JString val), boundsSet) rest
      else if key = ''bounds'' then
        (case parseBounds g val of
           Inl f \<Rightarrow> Inl f
         | Inr (minLon, minLat, maxLon, maxLat) \<Rightarrow>
             (if sint minLon \<ge> sint maxLon \<or> sint minLat \<ge> sint maxLat
              then Inl (Error ''zero-area bounds in mbtiles metadata'')
              else mbtilesToHeaderJSON_loop g
                     (header\<lparr>MinLonE7 := minLon, MinLatE7 := minLat,
                             MaxLonE7 := maxLon, MaxLatE7 := maxLat\<rparr>,
                      jsonResult, True) rest))
      else if key = ''center'' then
        (case parseCenter g val of
           Inl f \<Rightarrow> Inl f
         | Inr (centerLon, centerLat, centerZoom) \<Rightarrow>
             mbtilesToHeaderJSON_loop g
               (header\<lparr>CenterLonE7 := centerLon, CenterLatE7 := centerLat,
                       CenterZoom := centerZoom\<rparr>,
                jsonResult, boundsSet) rest)
      else if key = ''json'' then
        mbtilesToHeaderJSON_loop g
          (header, jsonResult ++ (\<lambda>k. map_option JValue (Unmarshal g val k)), boundsSet) rest
      else if key = ''compression'' then
        mbtilesToHeaderJSON_loop g
          (set_compression val header, jsonResult(''compression'' \<mapsto> JString val), boundsSet)
          rest
      else
        mbtilesToHeaderJSON_loop g (header, jsonResult(key \<mapsto> JString val), boundsSet) rest)"

text \<open>
  \<open>func mbtilesToHeaderJSON(mbtilesMetadata []string) (HeaderV3, map[string]interface{}, error)\<close>:
  the loop from \<open>HeaderV3{}\<close> and an empty map, then the default bounds
  \<open>int32(-180 * E7)\<close>, \<open>int32(-85 * E7)\<close>, \<open>int32(180 * E7)\<close>, \<open>int32(85 * E7)\<close>
  when no \<open>bounds\<close> row set them.
\<close>

definition mbtilesToHeaderJSON ::
  "('f, 'v) golib \<Rightarrow> string list \<Rightarrow> failure + (HeaderV3 \<times> 'v json)" where
  "mbtilesToHeaderJSON g mbtilesMetadata =
     (case mbtilesToHeaderJSON_loop g (zero_header, Map.empty, False) mbtilesMetadata of
        Inl f \<Rightarrow> Inl f
      | Inr (header, jsonResult, boundsSet) \<Rightarrow>
          (if \<not> boundsSet
           then Inr (header\<lparr>MinLonE7 := - 1800000000, MinLatE7 := - 850000000,
                            MaxLonE7 := 1800000000, MaxLatE7 := 850000000\<rparr>, jsonResult)
           else Inr (header, jsonResult)))"

text \<open>
  \<open>func convertMbtiles(logger, input, output, deduplicate, tmpfile) error\<close>: the
  connection, the metadata rows flattened to \<open>name, value, name, value, ...\<close>, the
  header, pass 1, the test \<open>tileset.GetCardinality() == 0\<close>, pass 2 on a new resolver
  and \<open>finalize\<close>. The warning about metadata without a \<open>format\<close> row is a log
  line and changes nothing. An error of \<open>mbtilesToHeaderJSON\<close> is wrapped into
  \<open>Failed to convert MBTiles to header JSON\<close>; a panic in it unwinds the conversion.
\<close>

definition convertMbtiles ::
  "('f, 'v) golib \<Rightarrow> 'v json env \<Rightarrow> mbtiles \<Rightarrow> bool \<Rightarrow> world \<Rightarrow> (failure + unit) \<times> world" where
  "convertMbtiles g e src dedup w =
     (if \<not> conn_opens src then (Inl (Error ''Failed to create database connection''), w)
      else
        (case run_query ''Failed to create SQL statement'' (metadata_query src) of
           Inl f \<Rightarrow> (Inl f, w)
         | Inr meta \<Rightarrow>
             (case mbtilesToHeaderJSON g (concat (map (\<lambda>(name, val). [name, val]) meta)) of
                Inl (Error msg) \<Rightarrow> (Inl (Error ''Failed to convert MBTiles to header JSON''), w)
              | Inl (Panic p) \<Rightarrow> (Inl (Panic p), w)
              | Inr (header, jsonMetadata) \<Rightarrow>
                  (case run_query ''Failed to create statement'' (tiles_query src) of
                     Inl f \<Rightarrow> (Inl f, w)
                   | Inr rows \<Rightarrow>
                       (if length (mbtiles_pass1 (ZxyToID e) rows) = 0
                        then (Inl (Error ''no tiles in MBTiles archive''), w)
                        else
                          (case mbtiles_pass2 e src
                                  (newResolver (gzip_best e) (fnv128a e) dedup (TileType header = Mvt))
                                  (mbtiles_pass1 (ZxyToID e) rows) w of
                             (Inl f, w') \<Rightarrow> (Inl f, w')
                           | (Inr resolve', w') \<Rightarrow>
                               (case finalize e resolve' header jsonMetadata w' of
                                  (Inl f, w'') \<Rightarrow> (Inl f, w'')
                                | (Inr h, w'') \<Rightarrow> (Inr (), w''))))))))"

subsection \<open>The legacy archive\<close>

text \<open>
  What \<open>convertPmtilesV2\<close> gets from the input file before its loop, each by the
  outcome of the step: \<open>os.Open\<close>; the test of the magic bytes for version 3; the
  read of the four bytes at offset 512000; \<open>v2ToHeaderJSON\<close>, which parses decimal
  fractions into floating point (\<open>None\<close> is its error); and the entries that
  \<open>addDirectoryV2Entries\<close> collects through \<open>parseDirectoryV2\<close>, a function outside
  \<open>convert.go\<close>, in the order \<open>sort.Slice\<close> leaves them in. In the loop,
  \<open>f.Seek(int64(entry.Offset), 0)\<close> may fail, and \<open>f.Read(buf)\<close> gives the buffer of
  \<open>entry.Length\<close> bytes unless it fails with an error other than \<open>io.EOF\<close>.
\<close>

record 'j v2archive =
  v2_opens :: bool
  v2_is_version3 :: bool
  v2_first4_read :: bool
  v2_header :: "(HeaderV3 \<times> 'j) option"
  v2_entries :: "EntryV3 list"
  v2_seek_fails :: "uint64 \<Rightarrow> bool"
  v2_read :: "uint64 \<Rightarrow> uint32 \<Rightarrow> bytes option"

text \<open>The loop \<open>for _, entry := range entries\<close> of \<open>convertPmtilesV2\<close>.\<close>

fun v2_replay ::
  "'j env \<Rightarrow> 'j v2archive \<Rightarrow> resolver \<Rightarrow> EntryV3 list \<Rightarrow> world \<Rightarrow> (failure + resolver) \<times> world" where
  "v2_replay e src resolve [] w = (Inr resolve, w)"
| "v2_replay e src resolve (entry # entries) w =
     (if Length entry = 0 then v2_replay e src resolve entries w
      else if v2_seek_fails src (Offset entry) then (Inl (Error ''Failed to seek at offset''), w)
      else
        (case v2_read src (Offset entry) (Length entry) of
           None \<Rightarrow> (Inl (Error ''Failed to read buffer''), w)
         | Some buf \<Rightarrow>
             (case AddTileIsNew resolve (TileID entry) buf 1 of
                Inl p \<Rightarrow> (Inl (Panic p), w)
              | Inr (resolve', isNew, newData) \<Rightarrow>
                  (if isNew then
                     (if tmp_write_fails e (length (tmpfile w))
                      then (Inl (Error ''Failed to write to tempfile''), w)
                      else v2_replay e src resolve' entries (w\<lparr>tmpfile := tmpfile w @ newData\<rparr>))
                   else v2_replay e src resolve' entries w))))"

text \<open>\<open>func convertPmtilesV2(logger, input, output, deduplicate, tmpfile) error\<close>\<close>

definition convertPmtilesV2 ::
  "'j env \<Rightarrow> 'j v2archive \<Rightarrow> bool \<Rightarrow> world \<Rightarrow> (failure + unit) \<times> world" where
  "convertPmtilesV2 e src dedup w =
     (if \<not> v2_opens src then (Inl (Error ''Failed to open file''), w)
      else if v2_is_version3 src
      then (Inl (Error ''archive is already the latest PMTiles version (3)''), w)
      else if \<not> v2_first4_read src then (Inl (Error ''Failed to read first 4''), w)
      else
        (case v2_header src of
           None \<Rightarrow> (Inl (Error ''Failed to convert v2 to header JSON''), w)
         | Some (header, jsonMetadata) \<Rightarrow>
             (case v2_replay e src
                     (newResolver (gzip_best e) (fnv128a e) dedup (TileType header = Mvt))
                     (v2_entries src) w of
                (Inl f, w') \<Rightarrow> (Inl f, w')
              | (Inr resolve', w') \<Rightarrow>
                  (case finalize e resolve' header jsonMetadata w' of
                     (Inl f, w'') \<Rightarrow> (Inl f, w'')
                   | (Inr h, w'') \<Rightarrow> (Inr (), w'')))))"

section \<open>The extraction pipeline\<close>

text \<open>
  \<open>convertToDirectory\<close> writes one file per tile at
  \<open>output/z/x/y.ext\<close>; the extension is the same for every tile of an archive, so a
  tile path is the triple \<open>(z, x, y)\<close>. A directory of the skeleton is the output
  directory, a zoom directory or an \<open>x\<close> directory below one.
\<close>

type_synonym tile_path = "uint8 \<times> uint32 \<times> uint32"

datatype dir = OutputDir | ZoomDir uint8 | XDir uint8 nat

text \<open>
  The output tree: the tile files with their bytes, \<open>metadata.json\<close>, and the
  counter \<open>processedTiles\<close>.
\<close>

record xworld =
  tiles :: "tile_path \<Rightarrow> bytes option"
  metadata_json :: "bytes option"
  processedTiles :: uint32

text \<open>
  The outcomes of the calls \<open>convertToDirectory\<close> makes, in the order it makes them:
  \<open>os.Open(input)\<close>; \<open>file.Read(headerBytes)\<close>; \<open>DeserializeHeader\<close>; every
  \<open>os.MkdirAll\<close>; \<open>DeserializeMetadataBytes\<close> and the write of \<open>metadata.json\<close>;
  \<open>IterateEntries\<close> with the entries it visits; the reader's own \<open>os.Open\<close> and its
  \<open>ReadAt\<close> for an entry; for a tile path, whether \<open>os.Stat\<close> fails with an error
  other than "not exist" and whether \<open>os.WriteFile\<close> fails. \<open>DeserializeHeader\<close>,
  \<open>DeserializeMetadataBytes\<close>, \<open>IterateEntries\<close> and \<open>IDToZxy\<close> are functions of this
  repository outside \<open>convert.go\<close>. \<open>x_cancel_seen k\<close> is the schedule: whether the
  worker, at its \<open>k\<close>-th \<open>select\<close>, finds the context of a group that has failed
  already done.
\<close>

record xenv =
  x_opens :: bool
  x_header_read :: bool
  x_header :: "HeaderV3 option"
  x_mkdir_fails :: "dir \<Rightarrow> bool"
  x_metadata :: "bytes option"
  x_metadata_write_fails :: bool
  x_entries :: "EntryV3 list option"
  x_reader_opens :: bool
  x_read_tile :: "EntryV3 \<Rightarrow> bytes option"
  x_stat_error :: "tile_path \<Rightarrow> bool"
  x_write_fails :: "tile_path \<Rightarrow> bool"
  x_cancel_seen :: "nat \<Rightarrow> bool"
  x_IDToZxy :: "uint64 \<Rightarrow> uint8 \<times> uint32 \<times> uint32"

text \<open>
  The directories the producer of \<open>generateDirectoryStructure\<close> creates or queues:
  \<open>for z := range maxZoom + 1\<close>, with the sum taken in \<open>uint8\<close>, the zoom directory
  and then \<open>for x := range int(math.Pow(2, float64(z)))\<close>, which is \<open>2 ^ z\<close> for
  every zoom below 63.
\<close>

definition skeleton_dirs :: "uint8 \<Rightarrow> dir list" where
  "skeleton_dirs maxZoom =
     concat (map (\<lambda>z. ZoomDir (of_nat z) # map (XDir (of_nat z)) [0 ..< 2 ^ z])
                 [0 ..< unat (maxZoom + 1)])"

text \<open>
  \<open>func generateDirectoryStructure(logger, output, maxZoom) error\<close>. The producer and
  the workers all return the error of a failing \<open>MkdirAll\<close>, and a cancelled group
  has failed already: the function returns an error exactly when the output
  directory or a directory of the skeleton cannot be made, whatever the schedule.
\<close>

definition generateDirectoryStructure :: "xenv \<Rightarrow> uint8 \<Rightarrow> failure option" where
  "generateDirectoryStructure e maxZoom =
     (if x_mkdir_fails e OutputDir then Some (Error ''Failed to create output directory'')
      else if list_ex (x_mkdir_fails e) (skeleton_dirs maxZoom)
      then Some (Error ''Failed during directory creation'')
      else None)"

text \<open>The block \<open>if header.MetadataLength > 0 { ... }\<close>.\<close>

definition save_metadata :: "xenv \<Rightarrow> HeaderV3 \<Rightarrow> xworld \<Rightarrow> failure + xworld" where
  "save_metadata e header w =
     (if MetadataLength header > 0 then
        (case x_metadata e of
           None \<Rightarrow> Inl (Error ''Failed to read metadata'')
         | Some metadataBytes \<Rightarrow>
             if x_metadata_write_fails e then Inl (Error ''Failed to write metadata.json'')
             else Inr (w\<lparr>metadata_json := Some metadataBytes\<rparr>))
      else Inr w)"

text \<open>
  The \<open>default\<close> branch of the worker's \<open>select\<close>, for the tile at \<open>path\<close>:
  \<open>os.IsNotExist(err)\<close> holds when the file is absent and \<open>os.Stat\<close> reports just
  that; then the file is written, and a failing \<open>os.WriteFile\<close> is logged and followed
  by \<open>continue\<close>, which also skips the counter. In every other case the counter is
  incremented.
\<close>

definition write_tile :: "xenv \<Rightarrow> tile_path \<Rightarrow> bytes \<Rightarrow> xworld \<Rightarrow> xworld" where
  "write_tile e path tileData w =
     (if tiles w path = None \<and> \<not> x_stat_error e path then
        (if x_write_fails e path then w
         else w\<lparr>tiles := (tiles w)(path \<mapsto> tileData), processedTiles := processedTiles w + 1\<rparr>)
      else w\<lparr>processedTiles := processedTiles w + 1\<rparr>)"

text \<open>
  The tile paths of one entry, \<open>IDToZxy(task.entry.TileID + uint64(i))\<close> for
  \<open>i < RunLength\<close>.
\<close>

definition run_paths :: "xenv \<Rightarrow> EntryV3 \<Rightarrow> tile_path list" where
  "run_paths e entry =
     map (\<lambda>i. x_IDToZxy e (TileID entry + of_nat i)) [0 ..< unat (RunLength entry)]"

text \<open>
  The inner loop \<open>for i := uint32(0); i < task.entry.RunLength; i++\<close> of a worker.
  \<open>failed\<close> says that a task of the group has returned an error, \<open>k\<close> counts the
  worker's \<open>select\<close> statements; \<open>case <-ctx.Done(): return ctx.Err()\<close> is the only
  \<open>return\<close> of an error in the worker.
\<close>

fun worker_run ::
  "xenv \<Rightarrow> bool \<Rightarrow> nat \<Rightarrow> bytes \<Rightarrow> tile_path list \<Rightarrow> xworld \<Rightarrow> failure option \<times> nat \<times> xworld" where
  "worker_run e failed k tileData [] w = (None, k, w)"
| "worker_run e failed k tileData (path # paths) w =
     (if failed \<and> x_cancel_seen e k then (Some (Error ''context canceled''), k, w)
      else worker_run e failed (Suc k) tileData paths (write_tile e path tileData w))"

text \<open>
  The outer loop \<open>for task := range taskCh\<close>. The pool of \<open>runtime.NumCPU()\<close> workers
  is one worker here, which takes the tasks in the order the reader sends them.
\<close>

fun worker ::
  "xenv \<Rightarrow> bool \<Rightarrow> nat \<Rightarrow> (EntryV3 \<times> bytes) list \<Rightarrow> xworld \<Rightarrow> failure option \<times> xworld" where
  "worker e failed k [] w = (None, w)"
| "worker e failed k ((entry, tileData) # tasks) w =
     (case worker_run e failed k tileData (run_paths e entry) w of
        (Some f, k', w') \<Rightarrow> (Some f, w')
      | (None, k', w') \<Rightarrow> worker e failed k' tasks w')"

text \<open>
  The reader's loop \<open>for _, entry := range allEntries\<close>: the error of the first
  failing \<open>ReadAt\<close>, and the tasks sent before it.
\<close>

fun reader_loop :: "xenv \<Rightarrow> EntryV3 list \<Rightarrow> failure option \<times> (EntryV3 \<times> bytes) list" where
  "reader_loop e [] = (None, [])"
| "reader_loop e (entry # entries) =
     (case x_read_tile e entry of
        None \<Rightarrow> (Some (Error ''Failed to read tile data''), [])
      | Some tileData \<Rightarrow>
          (case reader_loop e entries of (f, tasks) \<Rightarrow> (f, (entry, tileData) # tasks)))"

definition reader :: "xenv \<Rightarrow> EntryV3 list \<Rightarrow> failure option \<times> (EntryV3 \<times> bytes) list" where
  "reader e allEntries =
     (if \<not> x_reader_opens e then (Some (Error ''Failed to open file for reading''), [])
      else reader_loop e allEntries)"

text \<open>
  \<open>func convertToDirectory(logger, input, output) error\<close>. \<open>g.Wait()\<close> returns the
  first error a task of the group returned. A worker returns an error only after
  the context is done, that is after another task has failed, and the reader is the
  only other task: the error of \<open>g.Wait()\<close> is the reader's, if it has one.
\<close>

definition convertToDirectory :: "xenv \<Rightarrow> xworld \<Rightarrow> (failure + unit) \<times> xworld" where
  "convertToDirectory e w =
     (if \<not> x_opens e then (Inl (Error ''Failed to open file''), w)
      else if \<not> x_header_read e then (Inl (Error ''Failed to read header''), w)
      else
        (case x_header e of
           None \<Rightarrow> (Inl (Error ''Failed to parse header''), w)
         | Some header \<Rightarrow>
             (case generateDirectoryStructure e (MaxZoom header) of
                Some f \<Rightarrow> (Inl (Error ''Failed to create directory structure''), w)
              | None \<Rightarrow>
                  (case save_metadata e header w of
                     Inl f \<Rightarrow> (Inl f, w)
                   | Inr w1 \<Rightarrow>
                       (case x_entries e of
                          None \<Rightarrow> (Inl (Error ''Failed to iterate through tiles''), w1)
                        | Some allEntries \<Rightarrow>
                            (case reader e allEntries of
                               (readerErr, tasks) \<Rightarrow>
                                 (case worker e (readerErr \<noteq> None) 0 tasks w1 of
                                    (workerErr, w2) \<Rightarrow>
                                      (case readerErr of
                                         Some f \<Rightarrow> (Inl f, w2)
                                       | None \<Rightarrow>
                                           (case workerErr of
                                              Some f \<Rightarrow> (Inl f, w2)
                                            | None \<Rightarrow> (Inr (), w2))))))))))"

section \<open>Notions used in the statements\<close>

text \<open>
  A sequence of calls is ordered when the ids strictly increase and the run of each
  call, the ids \<open>tileID, ..., tileID + runLength - 1\<close>, ends before the id of the
  next call. With \<open>runLength = 1\<close> throughout, as in both adapters, this is the
  strictly increasing order of the ids.
\<close>

fun ordered_calls :: "call list \<Rightarrow> bool" where
  "ordered_calls [] = True"
| "ordered_calls [c] = True"
| "ordered_calls ((t, d, n) # (t', d', n') # cs) =
     (t < t' \<and> unat t + unat n \<le> unat t' \<and> ordered_calls ((t', d', n') # cs))"

text \<open>The range \<open>[TileID, TileID+RunLength)\<close> of an entry, as a set of numbers.\<close>

definition tile_range :: "EntryV3 \<Rightarrow> nat set" where
  "tile_range e = {unat (TileID e) ..< unat (TileID e) + unat (RunLength e)}"

text \<open>An entry lies before another: its id is smaller and its range ends by the other's id.\<close>

definition runs_before :: "EntryV3 \<Rightarrow> EntryV3 \<Rightarrow> bool" where
  "runs_before a b =
     (TileID a < TileID b \<and> unat (TileID a) + unat (RunLength a) \<le> unat (TileID b))"

text \<open>
  \<open>N\<close> calls at the consecutive ids \<open>ident, ident + 1, ..., ident + N - 1\<close>, each with
  the same content and \<open>runLength = 1\<close>.
\<close>

definition consecutive_calls :: "uint64 \<Rightarrow> bytes \<Rightarrow> nat \<Rightarrow> call list" where
  "consecutive_calls ident data N = map (\<lambda>k. (ident + of_nat k, data, 1)) [0 ..< N]"

text \<open>The \<open>(Offset, Length)\<close> pairs that the entries of a resolver point at.\<close>

definition stored :: "resolver \<Rightarrow> (uint64 \<times> uint32) set" where
  "stored r = (\<lambda>e. (Offset e, Length e)) ` set (Entries r)"

text \<open>
  The resolver after \<open>AddTileIsNew(5, "AAAA", 1)\<close> on a new resolver with both flags
  set and the two sample functions.
\<close>

definition resolver_after_AAAA :: resolver where
  "resolver_after_AAAA =
     \<lparr>deduplicate = True, compress = True,
      Entries = [\<lparr>TileID = 5, Offset = 0, Length = 6, RunLength = 1\<rparr>],
      r_Offset = 6, OffsetMap = [(AAAA, \<lparr>ol_Offset = 0, ol_Length = 6\<rparr>)],
      AddressedTiles = 1, compressor = sample_gzip, hashfunc = sample_digest\<rparr>"

section \<open>Sample inputs\<close>

text \<open>
  Concrete collaborators and sources, on which statements are evaluated. The
  spatial order is replaced by a packing of \<open>z\<close>, \<open>x\<close> and \<open>y\<close> into the bits of
  the id, and by its unpacking; the directory optimizer and the two codecs return
  empty byte strings; no system call fails.
\<close>

definition sample_ZxyToID :: "uint8 \<Rightarrow> uint32 \<Rightarrow> uint32 \<Rightarrow> uint64" where
  "sample_ZxyToID z x y = push_bit 56 (ucast z) OR push_bit 28 (ucast x) OR ucast y"

definition sample_IDToZxy :: "uint64 \<Rightarrow> uint8 \<times> uint32 \<times> uint32" where
  "sample_IDToZxy i =
     (ucast (drop_bit 56 i), ucast (take_bit 28 (drop_bit 28 i)), ucast (take_bit 28 i))"

definition sample_header :: HeaderV3 where
  "sample_header =
     \<lparr>RootOffset = 0, RootLength = 0, MetadataOffset = 0, MetadataLength = 0,
      LeafDirectoryOffset = 0, LeafDirectoryLength = 0, TileDataOffset = 0, TileDataLength = 0,
      AddressedTilesCount = 0, TileEntriesCount = 0, TileContentsCount = 0,
      Clustered = False, InternalCompression = UnknownCompression,
      TileCompression = UnknownCompression, TileType = Mvt,
      MinZoom = 0, MaxZoom = 0,
      MinLonE7 = - 1800000000, MinLatE7 = - 850000000,
      MaxLonE7 = 1800000000, MaxLatE7 = 850000000,
      CenterZoom = 0, CenterLonE7 = 0, CenterLatE7 = 0\<rparr>"

definition sample_env :: "unit env" where
  "sample_env =
     \<lparr>ZxyToID = sample_ZxyToID, IDToZxy = sample_IDToZxy,
      optimizeDirectories = (\<lambda>entries. ([], [], 0)),
      SerializeMetadata = (\<lambda>j. Some []),
      SerializeHeader = (\<lambda>h. []),
      HeaderV3LenBytes = 127,
      gzip_best = sample_gzip, fnv128a = sample_digest,
      create_fails = False, tmp_write_fails = (\<lambda>n. False),
      out_write_fails = (\<lambda>s. False), tmp_seek_fails = False, copy_fails = False\<rparr>"

text \<open>
  A sample of the standard library: numbers are written with decimal digits only
  and read as integers, and \<open>json.Unmarshal\<close> finds no key.
\<close>

definition digits_value :: "string \<Rightarrow> int" where
  "digits_value s = fold (\<lambda>c n. 10 * n + (of_char c - 48)) s 0"

definition sample_golib :: "(int, unit) golib" where
  "sample_golib =
     \<lparr>ParseFloat =
        (\<lambda>s. if s \<noteq> [] \<and> list_all (\<lambda>c. 48 \<le> (of_char c :: nat) \<and> (of_char c :: nat) \<le> 57) s
              then Some (digits_value s) else None),
      timesE7 = (\<lambda>x. word_of_int (x * 10000000)),
      ParseInt8 =
        (\<lambda>s. if s \<noteq> [] \<and> list_all (\<lambda>c. 48 \<le> (of_char c :: nat) \<and> (of_char c :: nat) \<le> 57) s
              then Some (word_of_int (digits_value s)) else None),
      Unmarshal = (\<lambda>s. Map.empty)\<rparr>"

text \<open>The sample collaborators again, for the JSON metadata of the relational store.\<close>

definition sample_json_env :: "unit json env" where
  "sample_json_env =
     \<lparr>ZxyToID = sample_ZxyToID, IDToZxy = sample_IDToZxy,
      optimizeDirectories = (\<lambda>entries. ([], [], 0)),
      SerializeMetadata = (\<lambda>j. Some []),
      SerializeHeader = (\<lambda>h. []),
      HeaderV3LenBytes = 127,
      gzip_best = sample_gzip, fnv128a = sample_digest,
      create_fails = False, tmp_write_fails = (\<lambda>n. False),
      out_write_fails = (\<lambda>s. False), tmp_seek_fails = False, copy_fails = False\<rparr>"

text \<open>An empty spool and no output file.\<close>

definition new_world :: world where
  "new_world = \<lparr>tmpfile = [], outfile = None\<rparr>"



text \<open>A relational store without tile rows whose \<open>bounds\<close> row has two numbers.\<close>

definition short_bounds_mbtiles :: mbtiles where
  "short_bounds_mbtiles =
     \<lparr>conn_opens = True,
      metadata_query = Rows [(''format'', ''pbf''), (''bounds'', ''1,2'')],
      tiles_query = Rows [], tile_data = (\<lambda>z x y. NoRow)\<rparr>"

text \<open>A legacy archive whose one directory entry has length zero.\<close>

definition zero_length_v2 :: "unit v2archive" where
  "zero_length_v2 =
     \<lparr>v2_opens = True, v2_is_version3 = False, v2_first4_read = True,
      v2_header = Some (sample_header, ()),
      v2_entries = [\<lparr>TileID = 0, Offset = 512000, Length = 0, RunLength = 1\<rparr>],
      v2_seek_fails = (\<lambda>off. False), v2_read = (\<lambda>off len. Some (replicate (unat len) 0))\<rparr>"

text \<open>An output directory without files.\<close>

definition empty_tree :: xworld where
  "empty_tree = \<lparr>tiles = (\<lambda>path. None), metadata_json = None, processedTiles = 0\<rparr>"

text \<open>
  An archive with one entry, a run of the two tiles 7 and 8 with content \<open>"AAAA"\<close>,
  extracted in a setting where everything succeeds except the write of the file of
  tile 7.
\<close>

definition write_failure_env :: xenv where
  "write_failure_env =
     \<lparr>x_opens = True, x_header_read = True, x_header = Some sample_header,
      x_mkdir_fails = (\<lambda>d. False), x_metadata = Some [], x_metadata_write_fails = False,
      x_entries = Some [\<lparr>TileID = 7, Offset = 0, Length = 4, RunLength = 2\<rparr>],
      x_reader_opens = True, x_read_tile = (\<lambda>entry. Some AAAA),
      x_stat_error = (\<lambda>path. False),
      x_write_fails = (\<lambda>path. path = (0, 0, 7)),
      x_cancel_seen = (\<lambda>k. False),
      x_IDToZxy = sample_IDToZxy\<rparr>"

section \<open>Properties of the resolver\<close>

subsection \<open>The two counters\<close>

text \<open>No \<open>uint32\<close> is above \<open>math.MaxUint32\<close>.\<close>

lemma uint32_not_above_max: "\<not> (w :: uint32) > 0xFFFFFFFF"
proof -
  have "(0xFFFFFFFF :: uint32) = - 1" by simp
  then show ?thesis by (simp only: word_order.extremum_strict not_False_eq_True)
qed

text \<open>Whatever the arguments, a call that returns has added one to the counter.\<close>

lemma AddTileIsNew_AddressedTiles:
  "AddTileIsNew r tileID data runLength = Inr (r', isNew, newData) \<Longrightarrow>
     AddressedTiles r' = AddressedTiles r + 1"
  by (auto simp add: AddTileIsNew_def Let_def split: option.splits if_splits)

text \<open>
  C3. One call \<open>AddTileIsNew(5, "AAAA", 3)\<close> on a new resolver returns with an entry of
  run length 3, which addresses the three tiles 5, 6 and 7, and with the
  addressed-tile counter at 1: the counter has grown by one, not by \<open>runLength\<close>.
\<close>

theorem AddTileIsNew_runLength3_counts_one:
  "(case AddTileIsNew (newResolver sample_gzip sample_digest True True) 5 AAAA 3 of
      Inl p \<Rightarrow> False
    | Inr (r', isNew, newData) \<Rightarrow>
        AddressedTiles r' = 1 \<and>
        Entries r' = [\<lparr>TileID = 5, Offset = 0, Length = 6, RunLength = 3\<rparr>])"
  by (simp add: AddTileIsNew_def newResolver_def newData_of_def sample_gzip_def
      sample_digest_def AAAA_def Let_def)

subsection \<open>The two branches of \<open>AddTileIsNew\<close>\<close>

lemma list_update_last: "es \<noteq> [] \<Longrightarrow> es[length es - Suc 0 := x] = butlast es @ [x]"
  by (induction es rule: rev_induct) (simp_all add: list_update_append)

lemma nth_length_minus_1: "es \<noteq> [] \<Longrightarrow> es ! (length es - Suc 0) = last es"
  by (simp add: last_conv_nth)

text \<open>Dedup off, or a digest not yet in the map: the content is stored and an entry appended.\<close>

lemma AddTileIsNew_miss:
  assumes "\<not> deduplicate r \<or> map_of (OffsetMap r) (hashfunc r d) = None"
  shows "AddTileIsNew r t d n =
    Inr (r\<lparr>AddressedTiles := AddressedTiles r + 1,
           OffsetMap := (if deduplicate r
              then AList.update (hashfunc r d)
                     \<lparr>ol_Offset = r_Offset r, ol_Length = of_nat (length (newData_of r d))\<rparr>
                     (OffsetMap r)
              else OffsetMap r),
           Entries := Entries r @ [\<lparr>TileID = t, Offset = r_Offset r,
                        Length = of_nat (length (newData_of r d)), RunLength = n\<rparr>],
           r_Offset := r_Offset r + of_nat (length (newData_of r d))\<rparr>,
         True, newData_of r d)"
  using assms by (auto simp add: AddTileIsNew_def Let_def newData_of_def)

text \<open>
  A dedup hit on a resolver with entries: the last entry is extended, with the sum
  taken in \<open>uint32\<close>, or an entry pointing at the stored content is appended. The
  test against \<open>math.MaxUint32\<close> never fires.
\<close>

lemma AddTileIsNew_hit:
  assumes "deduplicate r" "map_of (OffsetMap r) (hashfunc r d) = Some found" "Entries r \<noteq> []"
  shows "AddTileIsNew r t d n =
    (if t = TileID (last (Entries r)) + ucast (RunLength (last (Entries r)))
        \<and> Offset (last (Entries r)) = ol_Offset found
     then Inr (r\<lparr>AddressedTiles := AddressedTiles r + 1,
                 Entries := butlast (Entries r) @
                   [(last (Entries r))\<lparr>RunLength := RunLength (last (Entries r)) + n\<rparr>]\<rparr>,
               False, [])
     else Inr (r\<lparr>AddressedTiles := AddressedTiles r + 1,
                 Entries := Entries r @ [\<lparr>TileID = t, Offset = ol_Offset found,
                        Length = ol_Length found, RunLength = n\<rparr>]\<rparr>,
               False, []))"
  using assms
  by (simp add: AddTileIsNew_def Let_def uint32_not_above_max list_update_last
      nth_length_minus_1)

lemma AddTileIsNew_never_RunLengthExceeded:
  "AddTileIsNew r t d n \<noteq> Inl RunLengthExceeded"
  by (simp add: AddTileIsNew_def Let_def uint32_not_above_max split: option.splits)

text \<open>
  C2. On a new resolver with dedup, \<open>AddTileIsNew(0, "AAAA", 4294967295)\<close> leaves one
  entry of run length \<open>2^32 - 1\<close> whose range ends at id 4294967295. The call
  \<open>AddTileIsNew(4294967295, "AAAA", 1)\<close> is a dedup hit that takes the merge branch,
  and the merged run length \<open>2^32\<close> exceeds the 32-bit range. The call does not
  panic: it returns, and the entry has run length 0.
\<close>

theorem AddTileIsNew_merge_overflow_wraps:
  "(case feed (newResolver sample_gzip sample_digest True True)
           [(0, AAAA, 0xFFFFFFFF), (0xFFFFFFFF, AAAA, 1)] of
      Inl p \<Rightarrow> False
    | Inr r' \<Rightarrow> Entries r' = [\<lparr>TileID = 0, Offset = 0, Length = 6, RunLength = 0\<rparr>])"
  by (simp add: AddTileIsNew_def newResolver_def newData_of_def sample_gzip_def
      sample_digest_def AAAA_def Let_def)

text \<open>
  A call on a resolver that has an entry whenever its map has a key returns, leaves
  an entry, and either appended an entry for its id or extended the last one.
\<close>

lemma AddTileIsNew_step:
  assumes ok: "OffsetMap r = [] \<or> Entries r \<noteq> []"
  shows "\<exists>r' isNew newData. AddTileIsNew r t d n = Inr (r', isNew, newData) \<and>
           Entries r' \<noteq> [] \<and>
           ((\<exists>e. Entries r' = Entries r @ [e] \<and> TileID e = t \<and> RunLength e = n) \<or>
            (Entries r \<noteq> [] \<and>
             t = TileID (last (Entries r)) + ucast (RunLength (last (Entries r))) \<and>
             Entries r' = butlast (Entries r) @
               [(last (Entries r))\<lparr>RunLength := RunLength (last (Entries r)) + n\<rparr>]))"
proof (cases "deduplicate r \<and> map_of (OffsetMap r) (hashfunc r d) \<noteq> None")
  case False
  then have m: "\<not> deduplicate r \<or> map_of (OffsetMap r) (hashfunc r d) = None" by blast
  show ?thesis by (auto simp add: AddTileIsNew_miss [OF m])
next
  case True
  then obtain found where f: "map_of (OffsetMap r) (hashfunc r d) = Some found"
    and dd: "deduplicate r"
    by blast
  then have "OffsetMap r \<noteq> []" by auto
  with ok have ne: "Entries r \<noteq> []" by simp
  show ?thesis
    using ne by (auto simp add: AddTileIsNew_hit [OF dd f ne])
qed

lemma feed_append:
  "feed r (cs @ ds) = (case feed r cs of Inl p \<Rightarrow> Inl p | Inr r' \<Rightarrow> feed r' ds)"
  by (induction r cs rule: feed.induct) (auto split: sum.splits)

subsection \<open>Order of the entries\<close>

lemma runs_before_append_new:
  assumes "sorted_wrt runs_before es"
      and "\<forall>e\<in>set es. TileID e < t \<and> unat (TileID e) + unat (RunLength e) \<le> unat t"
      and "TileID e' = t"
  shows "sorted_wrt runs_before (es @ [e'])"
  using assms by (simp add: sorted_wrt_append runs_before_def)

text \<open>
  Changing the run length of the last entry keeps the order: no entry comes after
  the last one, and the relation reads the run length of the earlier entry only.
\<close>

lemma runs_before_extend_last:
  assumes ch: "sorted_wrt runs_before es" and ne: "es \<noteq> []"
  shows "sorted_wrt runs_before (butlast es @ [(last es)\<lparr>RunLength := rl\<rparr>])"
proof -
  from ne have "es = butlast es @ [last es]" by simp
  with ch have "sorted_wrt runs_before (butlast es @ [last es])" by simp
  then show ?thesis by (simp add: sorted_wrt_append runs_before_def)
qed

text \<open>
  The invariant of the feeding loop: the entries are in order, and every entry ends
  by the id of the next call.
\<close>

lemma feed_ordered:
  assumes "ordered_calls cs"
      and "OffsetMap r = [] \<or> Entries r \<noteq> []"
      and "sorted_wrt runs_before (Entries r)"
      and "cs \<noteq> [] \<longrightarrow> (\<forall>e\<in>set (Entries r). TileID e < fst (hd cs)
              \<and> unat (TileID e) + unat (RunLength e) \<le> unat (fst (hd cs)))"
  shows "\<exists>r'. feed r cs = Inr r' \<and> sorted_wrt runs_before (Entries r')"
  using assms
proof (induction cs arbitrary: r)
  case Nil
  then show ?case by simp
next
  case (Cons c cs)
  obtain t d n where c: "c = (t, d, n)" by (cases c)
  from Cons.prems(4) c
  have bel: "\<forall>e\<in>set (Entries r). TileID e < t \<and> unat (TileID e) + unat (RunLength e) \<le> unat t"
    by simp
  from AddTileIsNew_step [OF Cons.prems(2), of t d n]
  obtain r1 isNew newData where
    step: "AddTileIsNew r t d n = Inr (r1, isNew, newData)" and ne1: "Entries r1 \<noteq> []" and
    shape: "(\<exists>e. Entries r1 = Entries r @ [e] \<and> TileID e = t \<and> RunLength e = n) \<or>
            (Entries r \<noteq> [] \<and>
             t = TileID (last (Entries r)) + ucast (RunLength (last (Entries r))) \<and>
             Entries r1 = butlast (Entries r) @
               [(last (Entries r))\<lparr>RunLength := RunLength (last (Entries r)) + n\<rparr>])"
    by blast
  have ch1: "sorted_wrt runs_before (Entries r1)"
    using shape runs_before_append_new [OF Cons.prems(3) bel]
      runs_before_extend_last [OF Cons.prems(3)]
    by auto
  have bel1: "\<forall>e\<in>set (Entries r1).
      TileID e \<le> t \<and> unat (TileID e) + unat (RunLength e) \<le> unat t + unat n"
    using shape
  proof
    assume "\<exists>e. Entries r1 = Entries r @ [e] \<and> TileID e = t \<and> RunLength e = n"
    then show ?thesis using bel by (auto simp: less_imp_le intro: trans_le_add1)
  next
    assume m: "Entries r \<noteq> [] \<and>
             t = TileID (last (Entries r)) + ucast (RunLength (last (Entries r))) \<and>
             Entries r1 = butlast (Entries r) @
               [(last (Entries r))\<lparr>RunLength := RunLength (last (Entries r)) + n\<rparr>]"
    let ?l = "last (Entries r)"
    from m have lin: "?l \<in> set (Entries r)" by simp
    with bel have l1: "TileID ?l < t"
      and l2: "unat (TileID ?l) + unat (RunLength ?l) \<le> unat t" by auto
    have "unat (RunLength ?l + n) \<le> unat (RunLength ?l) + unat n"
      by (simp add: unat_word_ariths)
    with l1 l2
    have "TileID ?l \<le> t \<and> unat (TileID ?l) + unat (RunLength ?l + n) \<le> unat t + unat n"
      by (simp add: less_imp_le)
    moreover have "\<forall>e\<in>set (butlast (Entries r)).
        TileID e \<le> t \<and> unat (TileID e) + unat (RunLength e) \<le> unat t + unat n"
      using bel by (auto dest!: in_set_butlastD simp: less_imp_le intro: trans_le_add1)
    ultimately show ?thesis using m by auto
  qed
  have "\<exists>r'. feed r1 cs = Inr r' \<and> sorted_wrt runs_before (Entries r')"
  proof (rule Cons.IH)
    show "ordered_calls cs" using Cons.prems(1) c by (cases cs) auto
    show "OffsetMap r1 = [] \<or> Entries r1 \<noteq> []" using ne1 by simp
    show "sorted_wrt runs_before (Entries r1)" by (rule ch1)
    show "cs \<noteq> [] \<longrightarrow> (\<forall>e\<in>set (Entries r1). TileID e < fst (hd cs)
              \<and> unat (TileID e) + unat (RunLength e) \<le> unat (fst (hd cs)))"
    proof
      assume "cs \<noteq> []"
      then obtain t' d' n' cs' where cs: "cs = (t', d', n') # cs'" by (cases cs) auto
      with Cons.prems(1) c have o: "t < t'" "unat t + unat n \<le> unat t'" by auto
      show "\<forall>e\<in>set (Entries r1). TileID e < fst (hd cs)
              \<and> unat (TileID e) + unat (RunLength e) \<le> unat (fst (hd cs))"
        using bel1 o cs by fastforce
    qed
  qed
  then show ?case using step c by simp
qed

text \<open>
  Strictly increasing ids with \<open>runLength = 1\<close> throughout, as both adapters call the
  resolver, are ordered calls.
\<close>

lemma increasing_unit_calls_ordered:
  "sorted_wrt (<) (map fst cs) \<Longrightarrow> \<forall>c\<in>set cs. snd (snd c) = 1 \<Longrightarrow> ordered_calls cs"
proof (induction cs rule: ordered_calls.induct)
  case 1
  show ?case by simp
next
  case (2 c)
  show ?case by simp
next
  case (3 t d n t' d' n' cs)
  from "3.prems" have lt: "t < t'" and n: "n = 1" by simp_all
  from lt have "unat t + unat n \<le> unat t'" using n by (simp add: word_less_nat_alt)
  moreover have "ordered_calls ((t', d', n') # cs)"
    using "3.prems" by (intro "3.IH") simp_all
  ultimately show ?case using lt by simp
qed

text \<open>
  C1, as stated, fails in its second half: the calls \<open>AddTileIsNew(0, "A", 5)\<close> and
  \<open>AddTileIsNew(1, "B", 1)\<close> are in strictly increasing, unique id order, and the two
  entries they leave, sorted by id, have the ranges \<open>[0, 5)\<close> and \<open>[1, 2)\<close>, which
  share the id 1.
\<close>

theorem feed_increasing_ids_overlap:
  "map_sum id Entries
     (feed (newResolver sample_gzip sample_digest True False) [(0, [65], 5), (1, [66], 1)])
   = Inr [\<lparr>TileID = 0, Offset = 0, Length = 1, RunLength = 5\<rparr>,
          \<lparr>TileID = 1, Offset = 1, Length = 1, RunLength = 1\<rparr>]
   \<and> (0 :: uint64) < 1
   \<and> 1 \<in> tile_range \<lparr>TileID = 0, Offset = 0, Length = 1, RunLength = 5\<rparr>
         \<inter> tile_range \<lparr>TileID = 1, Offset = 1, Length = 1, RunLength = 1\<rparr>"
  by (simp add: AddTileIsNew_def newResolver_def newData_of_def sample_gzip_def
      sample_digest_def Let_def tile_range_def)

text \<open>
  The ids of the entries are the ids of the calls that appended them: extending the
  last entry keeps its id.
\<close>

lemma TileID_extend_last:
  assumes "es \<noteq> []"
  shows "map TileID (butlast es @ [(last es)\<lparr>RunLength := rl\<rparr>]) = map TileID es"
proof -
  from assms have "es = butlast es @ [last es]" by simp
  then have "map TileID es = map TileID (butlast es @ [last es])" by simp
  then show ?thesis by simp
qed

text \<open>
  Strictly increasing ids alone, with any run lengths, keep the entries in strictly
  ascending order of \<open>TileID\<close>.
\<close>

lemma feed_increasing:
  assumes "sorted_wrt (<) (map fst cs)"
      and "OffsetMap r = [] \<or> Entries r \<noteq> []"
      and "sorted_wrt (<) (map TileID (Entries r))"
      and "cs \<noteq> [] \<longrightarrow> (\<forall>e\<in>set (Entries r). TileID e < fst (hd cs))"
  shows "\<exists>r'. feed r cs = Inr r' \<and> sorted_wrt (<) (map TileID (Entries r'))"
  using assms
proof (induction cs arbitrary: r)
  case Nil
  then show ?case by simp
next
  case (Cons c cs)
  obtain t d n where c: "c = (t, d, n)" by (cases c)
  from Cons.prems(4) c have bel: "\<forall>e\<in>set (Entries r). TileID e < t" by simp
  from AddTileIsNew_step [OF Cons.prems(2), of t d n]
  obtain r1 isNew newData where
    step: "AddTileIsNew r t d n = Inr (r1, isNew, newData)" and ne1: "Entries r1 \<noteq> []" and
    shape: "(\<exists>e. Entries r1 = Entries r @ [e] \<and> TileID e = t \<and> RunLength e = n) \<or>
            (Entries r \<noteq> [] \<and>
             t = TileID (last (Entries r)) + ucast (RunLength (last (Entries r))) \<and>
             Entries r1 = butlast (Entries r) @
               [(last (Entries r))\<lparr>RunLength := RunLength (last (Entries r)) + n\<rparr>])"
    by blast
  from shape have ids: "map TileID (Entries r1) = map TileID (Entries r) @ [t]
      \<or> map TileID (Entries r1) = map TileID (Entries r)"
  proof
    assume "\<exists>e. Entries r1 = Entries r @ [e] \<and> TileID e = t \<and> RunLength e = n"
    then show ?thesis by auto
  next
    assume m: "Entries r \<noteq> [] \<and>
             t = TileID (last (Entries r)) + ucast (RunLength (last (Entries r))) \<and>
             Entries r1 = butlast (Entries r) @
               [(last (Entries r))\<lparr>RunLength := RunLength (last (Entries r)) + n\<rparr>]"
    then have ne: "Entries r \<noteq> []"
      and es: "Entries r1 = butlast (Entries r) @
               [(last (Entries r))\<lparr>RunLength := RunLength (last (Entries r)) + n\<rparr>]"
      by simp_all
    have "map TileID (Entries r1) = map TileID (Entries r)"
      unfolding es by (rule TileID_extend_last [OF ne])
    then show ?thesis ..
  qed
  have s1: "sorted_wrt (<) (map TileID (Entries r1))"
    using ids Cons.prems(3) bel by (auto simp add: sorted_wrt_append)
  have bel': "\<forall>x\<in>set (map TileID (Entries r)). x < t" using bel by simp
  have bel1: "\<forall>x\<in>set (map TileID (Entries r1)). x \<le> t"
    using ids
  proof
    assume a: "map TileID (Entries r1) = map TileID (Entries r) @ [t]"
    show ?thesis unfolding a using bel' by (auto simp: less_imp_le)
  next
    assume b: "map TileID (Entries r1) = map TileID (Entries r)"
    show ?thesis unfolding b using bel' by (auto simp: less_imp_le)
  qed
  have "\<exists>r'. feed r1 cs = Inr r' \<and> sorted_wrt (<) (map TileID (Entries r'))"
  proof (rule Cons.IH)
    show "sorted_wrt (<) (map fst cs)" using Cons.prems(1) by simp
    show "OffsetMap r1 = [] \<or> Entries r1 \<noteq> []" using ne1 by simp
    show "sorted_wrt (<) (map TileID (Entries r1))" by (rule s1)
    show "cs \<noteq> [] \<longrightarrow> (\<forall>e\<in>set (Entries r1). TileID e < fst (hd cs))"
    proof
      assume "cs \<noteq> []"
      then have "fst (hd cs) \<in> set (map fst cs)" by (cases cs) auto
      with Cons.prems(1) c have "t < fst (hd cs)" by auto
      with bel1 show "\<forall>e\<in>set (Entries r1). TileID e < fst (hd cs)" by fastforce
    qed
  qed
  then show ?case using step c by simp
qed

text \<open>Ordered calls have strictly increasing ids.\<close>

lemma ordered_calls_increasing: "ordered_calls cs \<Longrightarrow> sorted_wrt (<) (map fst cs)"
proof (induction cs rule: ordered_calls.induct)
  case 1
  show ?case by simp
next
  case (2 c)
  show ?case by simp
next
  case (3 t d n t' d' n' cs)
  then have s: "sorted_wrt (<) (map fst ((t', d', n') # cs))" and lt: "t < t'" by simp_all
  from s have "\<forall>x\<in>set (map fst cs). t' < x" by simp
  with lt have "\<forall>x\<in>set (map fst cs). t < x" by auto
  with s lt show ?case by simp
qed

text \<open>
  C1, amended. For every sequence of calls on a new resolver in strictly increasing
  order of \<open>tileID\<close>, with any flags, digest, compressor and run lengths, every call
  returns and the entries are in strictly ascending order of \<open>TileID\<close>. The ranges
  of two distinct entries are disjoint when, in addition, the run of each call ends
  by the id of the next call, that is when the calls are ordered; and they are
  whenever every \<open>runLength\<close> is 1.
\<close>

theorem feed_ordered_entries:
  assumes "sorted_wrt (<) (map fst cs)"
  shows "\<exists>r'. feed (newResolver gz h dedup compr) cs = Inr r' \<and>
           sorted_wrt (\<lambda>a b. TileID a < TileID b) (Entries r') \<and>
           (ordered_calls cs \<longrightarrow>
              (\<forall>i < length (Entries r'). \<forall>j < length (Entries r'). i \<noteq> j \<longrightarrow>
                 tile_range (Entries r' ! i) \<inter> tile_range (Entries r' ! j) = {})) \<and>
           ((\<forall>c\<in>set cs. snd (snd c) = 1) \<longrightarrow> ordered_calls cs)"
proof -
  let ?r = "newResolver gz h dedup compr"
  have "\<exists>r'. feed ?r cs = Inr r' \<and> sorted_wrt (<) (map TileID (Entries r'))"
    by (rule feed_increasing [OF assms]) (simp_all add: newResolver_def)
  then obtain r' where f: "feed ?r cs = Inr r'"
    and s0: "sorted_wrt (<) (map TileID (Entries r'))" by blast
  from s0 have s: "sorted_wrt (\<lambda>a b. TileID a < TileID b) (Entries r')"
    by (simp add: sorted_wrt_map)
  have d: "tile_range (Entries r' ! i) \<inter> tile_range (Entries r' ! j) = {}"
    if oc: "ordered_calls cs"
      and "i < length (Entries r')" "j < length (Entries r')" "i \<noteq> j" for i j
  proof -
    have "\<exists>r''. feed ?r cs = Inr r'' \<and> sorted_wrt runs_before (Entries r'')"
      by (rule feed_ordered [OF oc]) (simp_all add: newResolver_def)
    with f have ch: "sorted_wrt runs_before (Entries r')" by simp
    have lt: "tile_range (Entries r' ! a) \<inter> tile_range (Entries r' ! b) = {}"
      if "a < b" "b < length (Entries r')" for a b
    proof -
      from ch that have "runs_before (Entries r' ! a) (Entries r' ! b)"
        by (simp add: sorted_wrt_iff_nth_less)
      then show ?thesis by (auto simp: runs_before_def tile_range_def)
    qed
    from that(4) consider "i < j" | "j < i" by linarith
    then show ?thesis
    proof cases
      case 1 then show ?thesis using lt that by simp
    next
      case 2 then show ?thesis using lt [of j i] that by (simp add: Int_commute)
    qed
  qed
  have u: "(\<forall>c\<in>set cs. snd (snd c) = 1) \<longrightarrow> ordered_calls cs"
    using increasing_unit_calls_ordered [OF assms] by blast
  from f s d u show ?thesis by blast
qed

theorem feed_ordered_entries_witness:
  "sorted_wrt (<) (map fst [(5, AAAA, 1), (6, AAAA, 1), (9 :: uint64, [66], 2 :: uint32)]) \<and>
   ordered_calls [(5, AAAA, 1), (6, AAAA, 1), (9, [66], 2)] \<and>
   (\<exists>r'. feed (newResolver sample_gzip sample_digest True True)
            [(5, AAAA, 1), (6, AAAA, 1), (9, [66], 2)] = Inr r' \<and>
      sorted_wrt (\<lambda>a b. TileID a < TileID b) (Entries r') \<and>
      (\<forall>i < length (Entries r'). \<forall>j < length (Entries r'). i \<noteq> j \<longrightarrow>
         tile_range (Entries r' ! i) \<inter> tile_range (Entries r' ! j) = {}))"
proof -
  have i: "sorted_wrt (<)
      (map fst [(5, AAAA, 1), (6, AAAA, 1), (9 :: uint64, [66], 2 :: uint32)])"
    by simp
  have o: "ordered_calls [(5, AAAA, 1), (6, AAAA, 1), (9, [66], 2)]" by simp
  from feed_ordered_entries [OF i, of sample_gzip sample_digest True True] i o
  show ?thesis by blast
qed

subsection \<open>The content map and the entries\<close>

lemma stored_butlast_last:
  assumes "es \<noteq> []"
  shows "(\<lambda>e. (Offset e, Length e)) ` set (butlast es @ [(last es)\<lparr>RunLength := rl\<rparr>])
       = (\<lambda>e. (Offset e, Length e)) ` set es"
proof -
  from assms have "es = butlast es @ [last es]" by simp
  then have "set es = set (butlast es) \<union> {last es}"
    by (metis list.set(1) list.simps(15) set_append)
  then show ?thesis by auto
qed

lemma AddTileIsNew_keeps_invariant:
  assumes inv: "\<forall>k found. map_of (OffsetMap r) k = Some found \<longrightarrow>
                   (ol_Offset found, ol_Length found) \<in> stored r"
      and step: "AddTileIsNew r t d n = Inr (r', isNew, newData)"
  shows "\<forall>k found. map_of (OffsetMap r') k = Some found \<longrightarrow>
           (ol_Offset found, ol_Length found) \<in> stored r'"
proof (cases "deduplicate r \<and> map_of (OffsetMap r) (hashfunc r d) \<noteq> None")
  case False
  then have m: "\<not> deduplicate r \<or> map_of (OffsetMap r) (hashfunc r d) = None" by blast
  from step inv show ?thesis
    unfolding AddTileIsNew_miss [OF m]
    by (auto simp add: stored_def update_conv' image_iff split: if_splits)
next
  case True
  then obtain found where f: "map_of (OffsetMap r) (hashfunc r d) = Some found"
    and dd: "deduplicate r" by blast
  with inv have "(ol_Offset found, ol_Length found) \<in> stored r" by blast
  then have ne: "Entries r \<noteq> []" by (auto simp: stored_def)
  show ?thesis
  proof (cases "t = TileID (last (Entries r)) + ucast (RunLength (last (Entries r)))
        \<and> Offset (last (Entries r)) = ol_Offset found")
    case True
    with step have "r' = r\<lparr>AddressedTiles := AddressedTiles r + 1,
                 Entries := butlast (Entries r) @
                   [(last (Entries r))\<lparr>RunLength := RunLength (last (Entries r)) + n\<rparr>]\<rparr>"
      by (simp add: AddTileIsNew_hit [OF dd f ne])
    then have om: "OffsetMap r' = OffsetMap r"
      and es: "Entries r' = butlast (Entries r) @
                   [(last (Entries r))\<lparr>RunLength := RunLength (last (Entries r)) + n\<rparr>]"
      by simp_all
    have "stored r' = stored r"
      unfolding stored_def es by (rule stored_butlast_last [OF ne])
    with inv om show ?thesis by simp
  next
    case False
    with step have "r' = r\<lparr>AddressedTiles := AddressedTiles r + 1,
                 Entries := Entries r @ [\<lparr>TileID = t, Offset = ol_Offset found,
                        Length = ol_Length found, RunLength = n\<rparr>]\<rparr>"
      by (simp add: AddTileIsNew_hit [OF dd f ne])
    then have "OffsetMap r' = OffsetMap r" and "stored r \<subseteq> stored r'"
      by (auto simp add: stored_def)
    with inv show ?thesis by auto
  qed
qed

lemma feed_keeps_invariant:
  assumes "\<forall>k found. map_of (OffsetMap r) k = Some found \<longrightarrow>
             (ol_Offset found, ol_Length found) \<in> stored r"
      and "feed r cs = Inr r'"
  shows "\<forall>k found. map_of (OffsetMap r') k = Some found \<longrightarrow>
           (ol_Offset found, ol_Length found) \<in> stored r'"
  using assms
proof (induction cs arbitrary: r)
  case Nil
  then show ?case by simp
next
  case (Cons c cs)
  obtain t d n where c: "c = (t, d, n)" by (cases c)
  from Cons.prems(2) c obtain r1 isNew newData
    where step: "AddTileIsNew r t d n = Inr (r1, isNew, newData)"
      and rest: "feed r1 cs = Inr r'"
    by (auto split: sum.splits)
  from AddTileIsNew_keeps_invariant [OF Cons.prems(1) step] rest
  show ?case by (rule Cons.IH)
qed

text \<open>The keys of the map stay distinct, so its length is the number of its keys.\<close>

lemma feed_distinct_keys:
  "distinct (map fst (OffsetMap r)) \<Longrightarrow> feed r cs = Inr r' \<Longrightarrow>
     distinct (map fst (OffsetMap r'))"
proof (induction cs arbitrary: r)
  case Nil
  then show ?case by simp
next
  case (Cons c cs)
  obtain t d n where c: "c = (t, d, n)" by (cases c)
  from Cons.prems(2) c obtain r1 isNew newData
    where step: "AddTileIsNew r t d n = Inr (r1, isNew, newData)"
      and rest: "feed r1 cs = Inr r'"
    by (auto split: sum.splits)
  from step Cons.prems(1) have "distinct (map fst (OffsetMap r1))"
    by (auto simp add: AddTileIsNew_def Let_def distinct_update
        split: option.splits if_splits)
  from this rest show ?case by (rule Cons.IH)
qed

text \<open>
  C9. A resolver state is reachable when some sequence of calls of \<open>AddTileIsNew\<close>,
  with any arguments, leads to it from a new resolver. In every such state, each
  content location in \<open>OffsetMap\<close> is the \<open>Offset\<close> and \<open>Length\<close> of an entry of
  \<open>Entries\<close>; so when the dedup lookup hits, \<open>Entries\<close> is not empty and the index
  \<open>len(r.Entries)-1\<close> is in bounds; and no call of \<open>AddTileIsNew\<close> panics on that
  read.
\<close>

theorem reachable_hit_has_entry:
  assumes "feed (newResolver gz h dedup compr) cs = Inr r"
  shows "(\<forall>k found. map_of (OffsetMap r) k = Some found \<longrightarrow>
            (\<exists>e\<in>set (Entries r). Offset e = ol_Offset found \<and> Length e = ol_Length found)) \<and>
         (\<forall>data. deduplicate r \<and> map_of (OffsetMap r) (hashfunc r data) \<noteq> None \<longrightarrow>
            Entries r \<noteq> [] \<and> length (Entries r) - 1 < length (Entries r)) \<and>
         (\<forall>tileID data runLength. AddTileIsNew r tileID data runLength \<noteq> Inl IndexOutOfRange)"
proof -
  have "\<forall>k found. map_of (OffsetMap r) k = Some found \<longrightarrow>
           (ol_Offset found, ol_Length found) \<in> stored r"
    by (rule feed_keeps_invariant [OF _ assms]) (simp add: newResolver_def)
  then have inv: "\<forall>k found. map_of (OffsetMap r) k = Some found \<longrightarrow>
            (\<exists>e\<in>set (Entries r). Offset e = ol_Offset found \<and> Length e = ol_Length found)"
    by (fastforce simp add: stored_def)
  then have ne: "Entries r \<noteq> []" if "map_of (OffsetMap r) k \<noteq> None" for k
    using that by fastforce
  have "AddTileIsNew r tileID data runLength \<noteq> Inl IndexOutOfRange" for tileID data runLength
  proof (cases "deduplicate r \<and> map_of (OffsetMap r) (hashfunc r data) \<noteq> None")
    case False
    then have m: "\<not> deduplicate r \<or> map_of (OffsetMap r) (hashfunc r data) = None" by blast
    show ?thesis by (simp add: AddTileIsNew_miss [OF m])
  next
    case True
    then obtain found where f: "map_of (OffsetMap r) (hashfunc r data) = Some found"
      and dd: "deduplicate r" by blast
    from ne [of "hashfunc r data"] f have "Entries r \<noteq> []" by simp
    then show ?thesis by (simp add: AddTileIsNew_hit [OF dd f])
  qed
  moreover have "Entries r \<noteq> [] \<and> length (Entries r) - 1 < length (Entries r)"
    if "deduplicate r \<and> map_of (OffsetMap r) (hashfunc r data) \<noteq> None" for data
    using ne [of "hashfunc r data"] that by simp
  ultimately show ?thesis using inv by blast
qed

theorem reachable_hit_has_entry_witness:
  "feed (newResolver sample_gzip sample_digest True True) [(5, AAAA, 1)]
     = Inr resolver_after_AAAA \<and>
   map_of (OffsetMap resolver_after_AAAA) (hashfunc resolver_after_AAAA AAAA)
     = Some \<lparr>ol_Offset = 0, ol_Length = 6\<rparr> \<and>
   (\<exists>e\<in>set (Entries resolver_after_AAAA). Offset e = 0 \<and> Length e = 6) \<and>
   Entries resolver_after_AAAA \<noteq> [] \<and>
   AddTileIsNew resolver_after_AAAA 6 AAAA 1 \<noteq> Inl IndexOutOfRange"
proof -
  have f: "feed (newResolver sample_gzip sample_digest True True) [(5, AAAA, 1)]
             = Inr resolver_after_AAAA"
    by (simp add: AddTileIsNew_def newResolver_def newData_of_def sample_gzip_def
      sample_digest_def Let_def AAAA_def resolver_after_AAAA_def)
  have m: "map_of (OffsetMap resolver_after_AAAA) (hashfunc resolver_after_AAAA AAAA)
             = Some \<lparr>ol_Offset = 0, ol_Length = 6\<rparr>"
    by (simp add: resolver_after_AAAA_def sample_digest_def)
  from reachable_hit_has_entry [OF f] m f
  show ?thesis by fastforce
qed

subsection \<open>Run-length merging and deduplication\<close>

lemma ucast_of_nat_32_64:
  "n < 2 ^ 32 \<Longrightarrow> (ucast (of_nat n :: uint32) :: uint64) = of_nat n"
  by (simp add: unsigned_of_nat take_bit_nat_eq_self)

lemma unat_of_nat_32: "n < 2 ^ 32 \<Longrightarrow> unat (of_nat n :: uint32) = n"
  by (simp add: unat_of_nat)

lemma consecutive_calls_Suc:
  "consecutive_calls ident data (Suc N) =
     consecutive_calls ident data N @ [(ident + of_nat N, data, 1)]"
  by (simp add: consecutive_calls_def)

text \<open>
  The state after up to \<open>2^32\<close> consecutive tiles of one content that the resolver
  has not seen: one more entry, whose run length is the number of tiles as a
  \<open>uint32\<close>.
\<close>

lemma feed_consecutive:
  assumes dd: "deduplicate r" and miss: "map_of (OffsetMap r) (hashfunc r data) = None"
      and N: "Suc N \<le> 2 ^ 32"
  shows "feed r (consecutive_calls ident data (Suc N)) =
     Inr (r\<lparr>AddressedTiles := AddressedTiles r + of_nat (Suc N),
            OffsetMap := AList.update (hashfunc r data)
                 \<lparr>ol_Offset = r_Offset r, ol_Length = of_nat (length (newData_of r data))\<rparr>
                 (OffsetMap r),
            Entries := Entries r @ [\<lparr>TileID = ident, Offset = r_Offset r,
                 Length = of_nat (length (newData_of r data)), RunLength = of_nat (Suc N)\<rparr>],
            r_Offset := r_Offset r + of_nat (length (newData_of r data))\<rparr>)"
  using N
proof (induction N)
  case 0
  have m: "\<not> deduplicate r \<or> map_of (OffsetMap r) (hashfunc r data) = None"
    using miss by simp
  show ?case
    by (simp add: consecutive_calls_def AddTileIsNew_miss [OF m] dd)
next
  case (Suc N)
  let ?v = "\<lparr>ol_Offset = r_Offset r, ol_Length = of_nat (length (newData_of r data))\<rparr>"
  let ?rN = "r\<lparr>AddressedTiles := AddressedTiles r + of_nat (Suc N),
            OffsetMap := AList.update (hashfunc r data) ?v (OffsetMap r),
            Entries := Entries r @ [\<lparr>TileID = ident, Offset = r_Offset r,
                 Length = of_nat (length (newData_of r data)), RunLength = of_nat (Suc N)\<rparr>],
            r_Offset := r_Offset r + of_nat (length (newData_of r data))\<rparr>"
  from Suc have ih: "feed r (consecutive_calls ident data (Suc N)) = Inr ?rN" by simp
  from Suc.prems have lt: "Suc N < 2 ^ 32" by simp
  have dN: "deduplicate ?rN" using dd by simp
  have fN: "map_of (OffsetMap ?rN) (hashfunc ?rN data) = Some ?v"
    by (simp add: update_conv')
  have neN: "Entries ?rN \<noteq> []" by simp
  have u: "(ucast (of_nat (Suc N) :: uint32) :: uint64) = of_nat (Suc N)"
    by (rule ucast_of_nat_32_64 [OF lt])
  have step: "AddTileIsNew ?rN (ident + of_nat (Suc N)) data 1 =
     Inr (r\<lparr>AddressedTiles := AddressedTiles r + of_nat (Suc (Suc N)),
            OffsetMap := AList.update (hashfunc r data) ?v (OffsetMap r),
            Entries := Entries r @ [\<lparr>TileID = ident, Offset = r_Offset r,
                 Length = of_nat (length (newData_of r data)),
                 RunLength = of_nat (Suc (Suc N))\<rparr>],
            r_Offset := r_Offset r + of_nat (length (newData_of r data))\<rparr>, False, [])"
    unfolding AddTileIsNew_hit [OF dN fN neN]
    using u by (simp add: add.commute add.left_commute)
  show ?case
    unfolding consecutive_calls_Suc [of ident data "Suc N"] feed_append ih
    by (simp only: sum.case feed.simps step prod.case)
qed

text \<open>
  C4, as stated for every \<open>N \<ge> 1\<close>, fails at \<open>N = 2^32\<close>: after 4294967296 tiles
  of content \<open>"AAAA"\<close> at the ids \<open>0, 1, ..., 4294967295\<close> the one entry has run
  length 0, not \<open>N\<close>.
\<close>

theorem consecutive_tiles_2_32_run_length_0:
  "map_sum id (map RunLength \<circ> Entries)
     (feed (newResolver sample_gzip sample_digest True True)
        (consecutive_calls 0 AAAA 4294967296))
   = Inr [0]"
proof -
  let ?r0 = "newResolver sample_gzip sample_digest True True"
  have n: "(4294967296 :: nat) = Suc 4294967295" by simp
  have le: "Suc 4294967295 \<le> 2 ^ 32" by simp
  have z: "(of_nat (Suc 4294967295) :: uint32) = 0" by simp
  have dd0: "deduplicate ?r0" and miss0: "map_of (OffsetMap ?r0) (hashfunc ?r0 AAAA) = None"
    by (simp_all add: newResolver_def)
  show ?thesis
    unfolding n feed_consecutive [OF dd0 miss0 le] z
    by (simp add: newResolver_def)
qed

text \<open>
  C4, amended to \<open>1 \<le> N \<le> 2^32 - 1\<close>. On a resolver with dedup that has not seen
  the content, \<open>N\<close> tiles of that content at consecutive ids, each with
  \<open>runLength = 1\<close>, add exactly one entry: it starts at the first id, has
  \<open>RunLength = N\<close>, and its \<open>Offset\<close> is the cursor at the first call, which is the
  offset the first occurrence is stored at. On a new resolver this is the only
  entry. In the scenario, ids 5, 6, 7 with content \<open>"AAAA"\<close>, dedup and compression
  on, the entries are \<open>{TileID: 5, RunLength: 3, Offset: 0}\<close> with the length of the
  compressed bytes, and \<open>NumContents()\<close> is 1, for every digest and compressor.
\<close>

theorem consecutive_tiles_one_entry:
  assumes "deduplicate r" and "map_of (OffsetMap r) (hashfunc r data) = None"
      and "1 \<le> N" and "N < 2 ^ 32"
  shows "(\<exists>r' e. feed r (consecutive_calls ident data N) = Inr r' \<and>
            Entries r' = Entries r @ [e] \<and> TileID e = ident \<and> unat (RunLength e) = N \<and>
            Offset e = r_Offset r \<and> Length e = of_nat (length (newData_of r data))) \<and>
         (\<exists>r'. feed (newResolver gz h True True) [(5, AAAA, 1), (6, AAAA, 1), (7, AAAA, 1)]
                  = Inr r' \<and>
            Entries r' = [\<lparr>TileID = 5, Offset = 0, Length = of_nat (length (gz AAAA)),
                           RunLength = 3\<rparr>] \<and>
            NumContents r' = 1)"
proof -
  from assms(3) obtain M where M: "N = Suc M" by (cases N) auto
  with assms(4) have le: "Suc M \<le> 2 ^ 32" by simp
  have un: "unat (of_nat (Suc M) :: uint32) = Suc M"
    using assms(4) M by (simp only: unat_of_nat_32)
  have first: "\<exists>r' e. feed r (consecutive_calls ident data N) = Inr r' \<and>
            Entries r' = Entries r @ [e] \<and> TileID e = ident \<and> unat (RunLength e) = N \<and>
            Offset e = r_Offset r \<and> Length e = of_nat (length (newData_of r data))"
    unfolding M feed_consecutive [OF assms(1,2) le]
    using un by (simp del: of_nat_Suc)
  let ?r0 = "newResolver gz h True True"
  have c: "[(5, AAAA, 1), (6, AAAA, 1), (7, AAAA, 1)] = consecutive_calls 5 AAAA (Suc 2)"
    by (simp add: consecutive_calls_def numeral_3_eq_3 upt_rec)
  have nd: "newData_of ?r0 AAAA = gz AAAA"
    by (simp add: newData_of_def newResolver_def AAAA_def)
  have dd0: "deduplicate ?r0" and miss0: "map_of (OffsetMap ?r0) (hashfunc ?r0 AAAA) = None"
    by (simp_all add: newResolver_def)
  have le0: "Suc 2 \<le> (2 :: nat) ^ 32" by simp
  have second: "\<exists>r'. feed ?r0 [(5, AAAA, 1), (6, AAAA, 1), (7, AAAA, 1)] = Inr r' \<and>
            Entries r' = [\<lparr>TileID = 5, Offset = 0, Length = of_nat (length (gz AAAA)),
                           RunLength = 3\<rparr>] \<and>
            NumContents r' = 1"
    unfolding c feed_consecutive [OF dd0 miss0 le0] nd
    by (simp add: newResolver_def NumContents_def)
  from first second show ?thesis by blast
qed

theorem consecutive_tiles_one_entry_witness:
  "deduplicate (newResolver sample_gzip sample_digest True True) \<and>
   map_of (OffsetMap (newResolver sample_gzip sample_digest True True))
     (hashfunc (newResolver sample_gzip sample_digest True True) AAAA) = None \<and>
   (1 :: nat) \<le> 3 \<and> (3 :: nat) < 2 ^ 32 \<and>
   (\<exists>r' e. feed (newResolver sample_gzip sample_digest True True)
              (consecutive_calls 5 AAAA 3) = Inr r' \<and>
      Entries r' = Entries (newResolver sample_gzip sample_digest True True) @ [e] \<and>
      TileID e = 5 \<and> unat (RunLength e) = 3 \<and>
      Offset e = r_Offset (newResolver sample_gzip sample_digest True True) \<and>
      Length e = of_nat (length (newData_of (newResolver sample_gzip sample_digest True True)
                                   AAAA)))"
proof -
  let ?r0 = "newResolver sample_gzip sample_digest True True"
  have a: "deduplicate ?r0" and b: "map_of (OffsetMap ?r0) (hashfunc ?r0 AAAA) = None"
    by (simp_all add: newResolver_def)
  have c: "(1 :: nat) \<le> 3" and d: "(3 :: nat) < 2 ^ 32" by simp_all
  from consecutive_tiles_one_entry [OF a b c d, of 5] a b c d show ?thesis by blast
qed

text \<open>
  C5. Two calls with the same content on a new resolver with dedup, the second at
  an id other than the one right after the run of the first (for \<open>runLength = 1\<close>:
  other than \<open>tileID1 + 1\<close>). The first call returns \<open>isNew = true\<close> with the bytes
  to store: the content itself when compression is off or the content starts with
  the gzip magic bytes, the compressed content otherwise. The second call returns
  \<open>isNew = false\<close> with no bytes and leaves the cursor and the map as the first call
  left them, with the one location of these bytes. There are two entries, at offset
  0 and with the length of the stored bytes, and \<open>NumContents()\<close> is 1. Without
  dedup \<open>NumContents()\<close> is the addressed-tile counter, with dedup it is the size of
  the map.
\<close>

theorem identical_content_stored_once:
  assumes "tileID2 \<noteq> tileID1 + ucast runLength1"
  shows "(let stored_bytes =
                (if \<not> compr \<or> (2 \<le> length data \<and> data ! 0 = 31 \<and> data ! 1 = 139)
                 then data else gz data);
              location = \<lparr>ol_Offset = 0, ol_Length = of_nat (length stored_bytes)\<rparr>;
              e1 = \<lparr>TileID = tileID1, Offset = 0, Length = of_nat (length stored_bytes),
                    RunLength = runLength1\<rparr>;
              e2 = \<lparr>TileID = tileID2, Offset = 0, Length = of_nat (length stored_bytes),
                    RunLength = runLength2\<rparr>;
              r1 = \<lparr>deduplicate = True, compress = compr, Entries = [e1],
                    r_Offset = of_nat (length stored_bytes),
                    OffsetMap = [(h data, location)], AddressedTiles = 1,
                    compressor = gz, hashfunc = h\<rparr>;
              r2 = r1\<lparr>Entries := [e1, e2], AddressedTiles := 2\<rparr>
          in AddTileIsNew (newResolver gz h True compr) tileID1 data runLength1
               = Inr (r1, True, stored_bytes) \<and>
             AddTileIsNew r1 tileID2 data runLength2 = Inr (r2, False, []) \<and>
             r_Offset r2 = r_Offset r1 \<and> OffsetMap r2 = OffsetMap r1 \<and>
             NumContents r2 = 1) \<and>
         (\<forall>r. \<not> deduplicate r \<longrightarrow> NumContents r = AddressedTiles r) \<and>
         (\<forall>r. deduplicate r \<longrightarrow> NumContents r = of_nat (length (OffsetMap r)))"
proof -
  let ?r0 = "newResolver gz h True compr"
  let ?b = "if \<not> compr \<or> (2 \<le> length data \<and> data ! 0 = 31 \<and> data ! 1 = 139)
            then data else gz data"
  let ?v = "\<lparr>ol_Offset = 0, ol_Length = of_nat (length ?b)\<rparr>"
  let ?e1 = "\<lparr>TileID = tileID1, Offset = 0, Length = of_nat (length ?b),
              RunLength = runLength1\<rparr>"
  let ?e2 = "\<lparr>TileID = tileID2, Offset = 0, Length = of_nat (length ?b),
              RunLength = runLength2\<rparr>"
  let ?r1 = "\<lparr>deduplicate = True, compress = compr, Entries = [?e1],
              r_Offset = of_nat (length ?b),
              OffsetMap = [(h data, ?v)], AddressedTiles = 1,
              compressor = gz, hashfunc = h\<rparr>"
  let ?r2 = "?r1\<lparr>Entries := [?e1, ?e2], AddressedTiles := 2\<rparr>"
  have nd: "newData_of ?r0 data = ?b"
    by (simp add: newData_of_def newResolver_def)
  have m: "\<not> deduplicate ?r0 \<or> map_of (OffsetMap ?r0) (hashfunc ?r0 data) = None"
    by (simp add: newResolver_def)
  have s1: "AddTileIsNew ?r0 tileID1 data runLength1 = Inr (?r1, True, ?b)"
    unfolding AddTileIsNew_miss [OF m] nd by (simp add: newResolver_def)
  have d1: "deduplicate ?r1" by simp
  have f1: "map_of (OffsetMap ?r1) (hashfunc ?r1 data) = Some ?v" by simp
  have n1: "Entries ?r1 \<noteq> []" by simp
  have s2: "AddTileIsNew ?r1 tileID2 data runLength2 = Inr (?r2, False, [])"
    unfolding AddTileIsNew_hit [OF d1 f1 n1] using assms by simp
  have nc: "NumContents ?r2 = 1" by (simp add: NumContents_def)
  from s1 s2 nc show ?thesis
    unfolding Let_def by (simp add: NumContents_def)
qed

theorem identical_content_stored_once_witness:
  "(9 :: uint64) \<noteq> 5 + ucast (1 :: uint32) \<and>
   map_sum id (\<lambda>(r, isNew, newData). (Entries r, OffsetMap r, r_Offset r, isNew, newData))
     (AddTileIsNew (newResolver sample_gzip sample_digest True True) 5 AAAA 1)
     = Inr ([\<lparr>TileID = 5, Offset = 0, Length = 6, RunLength = 1\<rparr>],
            [(AAAA, \<lparr>ol_Offset = 0, ol_Length = 6\<rparr>)], 6, True,
            [31, 139, 65, 65, 65, 65])"
proof -
  have h: "(9 :: uint64) \<noteq> 5 + ucast (1 :: uint32)" by simp
  from identical_content_stored_once [OF h, where compr = True and data = AAAA
      and gz = sample_gzip and h = sample_digest and ?runLength2.0 = 1] h
  show ?thesis
    by (simp add: Let_def AAAA_def sample_gzip_def sample_digest_def)
qed

section \<open>Properties of the relational-store adapter\<close>

lemma flippedY_word: "flippedY_of z y = 2 ^ unat z - 1 - y"
  by (simp add: flippedY_of_def push_bit_eq_mult)

text \<open>For a zoom below 32 and a row of that zoom, the flip is the one of the integers.\<close>

lemma flippedY_nat:
  assumes "unat z < 32" "unat y < 2 ^ unat z"
  shows "unat (flippedY_of z y) = (2 ^ unat z - 1) - unat y"
proof -
  let ?a = "(2 :: nat) ^ unat z - 1 - unat y"
  have p: "(2::nat) ^ unat z < 2 ^ 32"
    by (rule power_strict_increasing [OF assms(1)]) simp
  have le: "unat y \<le> 2 ^ unat z - 1" and one: "(1::nat) \<le> 2 ^ unat z"
    using assms(2) by simp_all
  have "(of_nat ?a :: uint32) = of_nat (2 ^ unat z - 1) - of_nat (unat y)"
    using le by (simp only: of_nat_diff)
  also have "\<dots> = (of_nat (2 ^ unat z) - of_nat 1) - of_nat (unat y)"
    using one by (simp only: of_nat_diff)
  also have "\<dots> = flippedY_of z y"
    by (simp add: flippedY_word)
  finally have "flippedY_of z y = of_nat ?a" by simp
  moreover have "?a < 2 ^ 32" using p by simp
  ultimately show ?thesis by (simp only: unat_of_nat_32)
qed

lemma tileset_fold_set:
  "set (fold (\<lambda>row s. tileset_Add (f row) s) rows s0) = f ` set rows \<union> set s0"
  by (induction rows arbitrary: s0) (auto simp add: tileset_Add_def set_insort_key)

text \<open>The tile set of pass 1 is in ascending order and has no duplicates.\<close>

lemma tileset_fold_sorted:
  "sorted s0 \<Longrightarrow> distinct s0 \<Longrightarrow>
   sorted (fold (\<lambda>row s. tileset_Add (f row) s) rows s0) \<and>
   distinct (fold (\<lambda>row s. tileset_Add (f row) s) rows s0)"
  by (induction rows arbitrary: s0) (simp_all add: tileset_Add_def sorted_insort distinct_insort)

text \<open>
  C8. The id of a stored row \<open>(zoom, column, row)\<close> is \<open>ZxyToID\<close> at the zoom, the
  column and \<open>(2^zoom - 1) - row\<close>, computed in \<open>uint32\<close>; for a zoom below 32 and a
  row below \<open>2^zoom\<close> that is the same number as in the integers. The ids pass 1
  collects are exactly these ids of the stored rows. The row
  \<open>(zoom = 2, column = 1, row = 1)\<close> has the flipped row 2 and the id
  \<open>ZxyToID(2, 1, 2)\<close>, whatever \<open>ZxyToID\<close> is.
\<close>

theorem mbtiles_row_flipped:
  "mbtiles_row_id zxy (c0, c1, c2) =
     zxy (ucast c0) (ucast c1) (2 ^ unat (ucast c0 :: uint8) - 1 - ucast c2) \<and>
   (unat z < 32 \<and> unat y < 2 ^ unat z \<longrightarrow>
      unat (flippedY_of z y) = (2 ^ unat z - 1) - unat y) \<and>
   set (mbtiles_pass1 zxy rows) = mbtiles_row_id zxy ` set rows \<and>
   flippedY_of 2 1 = 2 \<and>
   mbtiles_row_id zxy (2, 1, 1) = zxy 2 1 2"
proof -
  have a: "mbtiles_row_id zxy (c0, c1, c2) =
     zxy (ucast c0) (ucast c1) (2 ^ unat (ucast c0 :: uint8) - 1 - ucast c2)"
    by (simp add: mbtiles_row_id_def Let_def flippedY_word)
  have b: "set (mbtiles_pass1 zxy rows) = mbtiles_row_id zxy ` set rows"
    by (simp add: mbtiles_pass1_def tileset_fold_set)
  have c: "flippedY_of 2 1 = 2" by (simp add: flippedY_of_def)
  have d: "mbtiles_row_id zxy (2, 1, 1) = zxy 2 1 2"
    by (simp add: mbtiles_row_id_def Let_def c)
  from a b c d flippedY_nat [of z y] show ?thesis by blast
qed

theorem mbtiles_row_flipped_witness:
  "unat (2 :: uint8) < 32 \<and> unat (1 :: uint32) < 2 ^ unat (2 :: uint8) \<and>
   unat (flippedY_of 2 1) = (2 ^ unat (2 :: uint8) - 1) - unat (1 :: uint32) \<and>
   mbtiles_row_id sample_ZxyToID (2, 1, 1) = sample_ZxyToID 2 1 2"
proof -
  have h: "unat (2 :: uint8) < 32 \<and> unat (1 :: uint32) < 2 ^ unat (2 :: uint8)" by simp
  from mbtiles_row_flipped [of sample_ZxyToID 2 1 1 2 1 "[]"] h show ?thesis by blast
qed

lemma split_comma_not_Nil: "split_comma s \<noteq> []"
  by (induction s) (auto split: list.splits)

text \<open>
  A \<open>bounds\<close> text with fewer than four numbers makes \<open>parseBounds\<close> panic at
  \<open>parts[2]\<close>, and the conversion with it, before the tiles are looked at.
\<close>

lemma parseBounds_two_numbers:
  "parseBounds sample_golib ''1,2'' = Inl (Panic IndexOutOfRange)"
  by (simp add: parseBounds_def float_part_def sample_golib_def digits_value_def Let_def)

lemma convertMbtiles_short_bounds_panics:
  "convertMbtiles sample_golib sample_json_env short_bounds_mbtiles True new_world
     = (Inl (Panic IndexOutOfRange), new_world)"
  by (simp add: convertMbtiles_def short_bounds_mbtiles_def run_query_def
      mbtilesToHeaderJSON_def parseBounds_two_numbers)




section \<open>Properties of the assembler\<close>

lemma v2_replay_zero_lengths:
  "\<forall>entry\<in>set entries. Length entry = 0 \<Longrightarrow>
     v2_replay e src resolve entries w = (Inr resolve, w)"
  by (induction entries) simp_all

lemma finalize_no_entries:
  assumes "Entries resolve = []" "\<not> create_fails e" "SerializeMetadata e j \<noteq> None"
  shows "finalize e resolve header j w
           = (Inl (Panic IndexOutOfRange), w\<lparr>outfile := Some []\<rparr>)"
  using assms
  by (auto simp add: finalize_def setZoomCenterDefaults_def Let_def
      split: prod.splits option.splits)

text \<open>
  C10. \<open>setZoomCenterDefaults\<close> on no entries panics at \<open>entries[0]\<close>. \<open>finalize\<close> on
  a resolver without entries never returns a header: once the output file is
  created and the metadata serialized it reaches \<open>setZoomCenterDefaults\<close> and
  panics, leaving the created, empty output file; before that it can only return
  the error of one of these two steps. The state is reached through
  \<open>convertPmtilesV2\<close>: for a legacy archive that is read up to its entries, all of
  length zero, the loop skips every entry, nothing checks that the resolver has an
  entry, and the conversion panics in \<open>finalize\<close>.
\<close>

theorem finalize_no_entries_panics:
  "setZoomCenterDefaults idToZxy header [] = Inl IndexOutOfRange \<and>
   (Entries resolve = [] \<and> \<not> create_fails e \<and> SerializeMetadata e j \<noteq> None \<longrightarrow>
      finalize e resolve header j w
        = (Inl (Panic IndexOutOfRange), w\<lparr>outfile := Some []\<rparr>)) \<and>
   (Entries resolve = [] \<longrightarrow> (\<exists>f. fst (finalize e resolve header j w) = Inl f)) \<and>
   (v2_opens src \<and> \<not> v2_is_version3 src \<and> v2_first4_read src \<and>
    v2_header src = Some (header, j) \<and>
    (\<forall>entry\<in>set (v2_entries src). Length entry = 0) \<and>
    \<not> create_fails e \<and> SerializeMetadata e j \<noteq> None \<longrightarrow>
      convertPmtilesV2 e src dedup w
        = (Inl (Panic IndexOutOfRange), w\<lparr>outfile := Some []\<rparr>))"
proof -
  have a: "setZoomCenterDefaults idToZxy header [] = Inl IndexOutOfRange"
    by (simp add: setZoomCenterDefaults_def)
  have c: "\<exists>f. fst (finalize e resolve header j w) = Inl f" if "Entries resolve = []"
    using that
    by (auto simp add: finalize_def setZoomCenterDefaults_def Let_def
        split: prod.splits option.splits)
  have d: "convertPmtilesV2 e src dedup w
             = (Inl (Panic IndexOutOfRange), w\<lparr>outfile := Some []\<rparr>)"
    if "v2_opens src" "\<not> v2_is_version3 src" "v2_first4_read src"
       "v2_header src = Some (header, j)"
       "\<forall>entry\<in>set (v2_entries src). Length entry = 0"
       "\<not> create_fails e" "SerializeMetadata e j \<noteq> None"
  proof -
    let ?r = "newResolver (gzip_best e) (fnv128a e) dedup (TileType header = Mvt)"
    have r: "v2_replay e src ?r (v2_entries src) w = (Inr ?r, w)"
      by (rule v2_replay_zero_lengths [OF that(5)])
    have f: "finalize e ?r header j w
               = (Inl (Panic IndexOutOfRange), w\<lparr>outfile := Some []\<rparr>)"
      by (rule finalize_no_entries [OF _ that(6,7)]) (simp add: newResolver_def)
    show ?thesis using that(1-4) by (simp add: convertPmtilesV2_def r f)
  qed
  from a c d finalize_no_entries [of resolve e j header w] show ?thesis by blast
qed

theorem finalize_no_entries_panics_witness:
  "Entries (newResolver sample_gzip sample_digest True True) = [] \<and>
   \<not> create_fails sample_env \<and> SerializeMetadata sample_env () \<noteq> None \<and>
   finalize sample_env (newResolver sample_gzip sample_digest True True) sample_header ()
       new_world
     = (Inl (Panic IndexOutOfRange), new_world\<lparr>outfile := Some []\<rparr>) \<and>
   v2_opens zero_length_v2 \<and> \<not> v2_is_version3 zero_length_v2 \<and>
   v2_first4_read zero_length_v2 \<and>
   v2_header zero_length_v2 = Some (sample_header, ()) \<and>
   list_all (\<lambda>entry. Length entry = 0) (v2_entries zero_length_v2) \<and>
   convertPmtilesV2 sample_env zero_length_v2 True new_world
     = (Inl (Panic IndexOutOfRange), new_world\<lparr>outfile := Some []\<rparr>)"
proof -
  have h1: "Entries (newResolver sample_gzip sample_digest True True) = [] \<and>
      \<not> create_fails sample_env \<and> SerializeMetadata sample_env () \<noteq> None"
    by (simp add: newResolver_def sample_env_def)
  have h2: "v2_opens zero_length_v2 \<and> \<not> v2_is_version3 zero_length_v2 \<and>
      v2_first4_read zero_length_v2 \<and>
      v2_header zero_length_v2 = Some (sample_header, ()) \<and>
      (\<forall>entry\<in>set (v2_entries zero_length_v2). Length entry = 0)"
    by (simp add: zero_length_v2_def)
  from finalize_no_entries_panics [of sample_IDToZxy sample_header
      "newResolver sample_gzip sample_digest True True" sample_env "()" new_world
      zero_length_v2 True] h1 h2
  show ?thesis by (simp add: list_all_iff)
qed

section \<open>Properties of the extraction pipeline\<close>

lemma reader_loop_None:
  "(fst (reader_loop e entries) = None) = (\<forall>entry\<in>set entries. x_read_tile e entry \<noteq> None)"
  by (induction entries) (auto split: option.splits prod.splits)

lemma reader_None:
  "(fst (reader e entries) = None) =
     (x_reader_opens e \<and> (\<forall>entry\<in>set entries. x_read_tile e entry \<noteq> None))"
  by (simp add: reader_def reader_loop_None)

text \<open>
  In a group that has not failed, the inner loop of a worker handles every tile of
  the run, one after the other, whatever the writes do.
\<close>

lemma worker_run_not_failed:
  "worker_run e False k d paths w =
     (None, k + length paths, fold (\<lambda>p. write_tile e p d) paths w)"
  by (induction paths arbitrary: k w) simp_all

lemma worker_not_failed: "fst (worker e False k tasks w) = None"
  by (induction tasks arbitrary: k w) (auto simp add: worker_run_not_failed)

lemma generateDirectoryStructure_None:
  "(generateDirectoryStructure e maxZoom = None) =
     (\<not> x_mkdir_fails e OutputDir \<and> (\<forall>d\<in>set (skeleton_dirs maxZoom). \<not> x_mkdir_fails e d))"
  by (simp add: generateDirectoryStructure_def list_ex_iff)

lemma save_metadata_Inr:
  "(\<exists>w'. save_metadata e header w = Inr w') =
     (MetadataLength header > 0 \<longrightarrow> x_metadata e \<noteq> None \<and> \<not> x_metadata_write_fails e)"
  by (auto simp add: save_metadata_def split: option.splits)

lemma run_paths_write_failure_env:
  "run_paths write_failure_env \<lparr>TileID = 7, Offset = 0, Length = 4, RunLength = 2\<rparr>
     = [(0, 0, 7), (0, 0, 8)]"
  by (simp add: run_paths_def write_failure_env_def sample_IDToZxy_def upt_rec
      take_bit_eq_mod drop_bit_eq_div)

text \<open>
  C6, as stated, fails: with one entry for the tiles 7 and 8 and a failing write of
  the file of tile 7, \<open>convertToDirectory\<close> returns no error; the file of tile 7 is
  missing, the worker has gone on to write the file of tile 8, and one tile is
  counted.
\<close>

theorem tile_write_failure_not_reported:
  "x_write_fails write_failure_env (0, 0, 7) \<and>
   fst (convertToDirectory write_failure_env empty_tree) = Inr () \<and>
   tiles (snd (convertToDirectory write_failure_env empty_tree)) (0, 0, 7) = None \<and>
   tiles (snd (convertToDirectory write_failure_env empty_tree)) (0, 0, 8) = Some AAAA \<and>
   processedTiles (snd (convertToDirectory write_failure_env empty_tree)) = 1"
proof -
  have sel: "x_opens write_failure_env" "x_header_read write_failure_env"
    "x_header write_failure_env = Some sample_header" "MaxZoom sample_header = 0"
    "x_entries write_failure_env
       = Some [\<lparr>TileID = 7, Offset = 0, Length = 4, RunLength = 2\<rparr>]"
    by (simp_all add: write_failure_env_def sample_header_def)
  have g: "generateDirectoryStructure write_failure_env 0 = None"
    by (simp add: generateDirectoryStructure_def write_failure_env_def list_ex_iff)
  have m: "save_metadata write_failure_env sample_header empty_tree = Inr empty_tree"
    by (simp add: save_metadata_def sample_header_def)
  have r: "reader write_failure_env [\<lparr>TileID = 7, Offset = 0, Length = 4, RunLength = 2\<rparr>]
     = (None, [(\<lparr>TileID = 7, Offset = 0, Length = 4, RunLength = 2\<rparr>, AAAA)])"
    by (simp add: reader_def write_failure_env_def)
  have w: "worker write_failure_env False 0
             [(\<lparr>TileID = 7, Offset = 0, Length = 4, RunLength = 2\<rparr>, AAAA)] empty_tree
     = (None, empty_tree\<lparr>tiles := (tiles empty_tree)((0, 0, 8) \<mapsto> AAAA),
                         processedTiles := 1\<rparr>)"
    by (simp add: run_paths_write_failure_env write_tile_def)
       (simp add: write_failure_env_def empty_tree_def)
  have c: "convertToDirectory write_failure_env empty_tree
     = (Inr (), empty_tree\<lparr>tiles := (tiles empty_tree)((0, 0, 8) \<mapsto> AAAA),
                           processedTiles := 1\<rparr>)"
    by (simp add: convertToDirectory_def sel g m r w del: worker.simps)
  show ?thesis unfolding c by (simp add: write_failure_env_def empty_tree_def)
qed

text \<open>
  C6, amended. \<open>convertToDirectory\<close> returns without an error exactly when the input
  opens, the header is read and parsed, every directory of the skeleton is made, the
  metadata (if the header has any) is read and written, the entries are iterated,
  the reader opens the input, and the bytes of every entry are read: a failure of
  any of these makes the operation return an error. Whether the write of a tile
  file fails is not among the conditions. A tile whose file is absent and cannot be
  written is skipped, leaving the tree and the counter as they were, and the worker
  handles the remaining tiles of the run.
\<close>

theorem convertToDirectory_failures:
  "(fst (convertToDirectory e w) = Inr ()) =
     (x_opens e \<and> x_header_read e \<and>
      (\<exists>header allEntries.
         x_header e = Some header \<and>
         \<not> x_mkdir_fails e OutputDir \<and>
         (\<forall>d\<in>set (skeleton_dirs (MaxZoom header)). \<not> x_mkdir_fails e d) \<and>
         (MetadataLength header > 0 \<longrightarrow>
            x_metadata e \<noteq> None \<and> \<not> x_metadata_write_fails e) \<and>
         x_entries e = Some allEntries \<and>
         x_reader_opens e \<and>
         (\<forall>entry\<in>set allEntries. x_read_tile e entry \<noteq> None))) \<and>
   (tiles w path = None \<and> \<not> x_stat_error e path \<and> x_write_fails e path \<longrightarrow>
      write_tile e path tileData w = w) \<and>
   worker_run e False k tileData paths w =
     (None, k + length paths, fold (\<lambda>p. write_tile e p tileData) paths w)"
proof -
  have ok: "(fst (convertToDirectory e w) = Inr ()) =
     (x_opens e \<and> x_header_read e \<and>
      (\<exists>header allEntries.
         x_header e = Some header \<and>
         \<not> x_mkdir_fails e OutputDir \<and>
         (\<forall>d\<in>set (skeleton_dirs (MaxZoom header)). \<not> x_mkdir_fails e d) \<and>
         (MetadataLength header > 0 \<longrightarrow>
            x_metadata e \<noteq> None \<and> \<not> x_metadata_write_fails e) \<and>
         x_entries e = Some allEntries \<and>
         x_reader_opens e \<and>
         (\<forall>entry\<in>set allEntries. x_read_tile e entry \<noteq> None)))"
  proof (cases "x_opens e \<and> x_header_read e")
    case False
    then show ?thesis by (auto simp add: convertToDirectory_def)
  next
    case pre: True
    show ?thesis
    proof (cases "x_header e")
      case None
      with pre show ?thesis by (simp add: convertToDirectory_def)
    next
      case (Some header)
      note hd = Some
      show ?thesis
      proof (cases "generateDirectoryStructure e (MaxZoom header)")
        case (Some f)
        then have "\<not> (\<not> x_mkdir_fails e OutputDir \<and>
            (\<forall>d\<in>set (skeleton_dirs (MaxZoom header)). \<not> x_mkdir_fails e d))"
          using generateDirectoryStructure_None [of e "MaxZoom header"] by simp
        with pre hd Some show ?thesis
          by (auto simp add: convertToDirectory_def)
      next
        case None
        note gd = None
        then have dirs: "\<not> x_mkdir_fails e OutputDir \<and>
            (\<forall>d\<in>set (skeleton_dirs (MaxZoom header)). \<not> x_mkdir_fails e d)"
          using generateDirectoryStructure_None [of e "MaxZoom header"] by simp
        show ?thesis
        proof (cases "save_metadata e header w")
          case (Inl f)
          then have "\<not> (MetadataLength header > 0 \<longrightarrow>
              x_metadata e \<noteq> None \<and> \<not> x_metadata_write_fails e)"
            using save_metadata_Inr [of e header w] by simp
          with pre hd gd Inl show ?thesis
            by (auto simp add: convertToDirectory_def)
        next
          case (Inr w1)
          then have md: "MetadataLength header > 0 \<longrightarrow>
              x_metadata e \<noteq> None \<and> \<not> x_metadata_write_fails e"
            using save_metadata_Inr [of e header w] by blast
          show ?thesis
          proof (cases "x_entries e")
            case None
            with pre hd gd Inr show ?thesis by (simp add: convertToDirectory_def)
          next
            case (Some allEntries)
            obtain readerErr tasks where rd: "reader e allEntries = (readerErr, tasks)"
              by (cases "reader e allEntries")
            obtain workerErr w2
              where wk: "worker e (readerErr \<noteq> None) 0 tasks w1 = (workerErr, w2)"
              by (cases "worker e (readerErr \<noteq> None) 0 tasks w1")
            have rn: "(readerErr = None) =
                (x_reader_opens e \<and> (\<forall>entry\<in>set allEntries. x_read_tile e entry \<noteq> None))"
              using reader_None [of e allEntries] rd by simp
            have wn: "readerErr = None \<Longrightarrow> workerErr = None"
              using worker_not_failed [of e 0 tasks w1] wk by simp
            have "(fst (convertToDirectory e w) = Inr ()) = (readerErr = None)"
              using pre hd gd Inr Some rd wk wn
              by (auto simp add: convertToDirectory_def split: option.splits)
            with rn pre hd dirs md Some show ?thesis by auto
          qed
        qed
      qed
    qed
  qed
  have skip: "tiles w path = None \<and> \<not> x_stat_error e path \<and> x_write_fails e path \<longrightarrow>
      write_tile e path tileData w = w"
    by (simp add: write_tile_def)
  from ok skip worker_run_not_failed [of e k tileData paths w] show ?thesis by blast
qed

theorem convertToDirectory_failures_witness:
  "x_opens write_failure_env \<and> x_header_read write_failure_env \<and>
   x_header write_failure_env = Some sample_header \<and>
   \<not> x_mkdir_fails write_failure_env OutputDir \<and>
   list_all (\<lambda>d. \<not> x_mkdir_fails write_failure_env d)
     (skeleton_dirs (MaxZoom sample_header)) \<and>
   \<not> MetadataLength sample_header > 0 \<and>
   x_entries write_failure_env
     = Some [\<lparr>TileID = 7, Offset = 0, Length = 4, RunLength = 2\<rparr>] \<and>
   x_reader_opens write_failure_env \<and>
   x_read_tile write_failure_env \<lparr>TileID = 7, Offset = 0, Length = 4, RunLength = 2\<rparr>
     \<noteq> None \<and>
   fst (convertToDirectory write_failure_env empty_tree) = Inr () \<and>
   tiles empty_tree (0, 0, 7) = None \<and> \<not> x_stat_error write_failure_env (0, 0, 7) \<and>
   x_write_fails write_failure_env (0, 0, 7) \<and>
   write_tile write_failure_env (0, 0, 7) AAAA empty_tree = empty_tree"
proof -
  have sel: "x_opens write_failure_env" "x_header_read write_failure_env"
    "x_header write_failure_env = Some sample_header"
    "\<not> x_mkdir_fails write_failure_env OutputDir"
    "\<forall>d\<in>set (skeleton_dirs (MaxZoom sample_header)). \<not> x_mkdir_fails write_failure_env d"
    "\<not> MetadataLength sample_header > 0"
    "x_entries write_failure_env
       = Some [\<lparr>TileID = 7, Offset = 0, Length = 4, RunLength = 2\<rparr>]"
    "x_reader_opens write_failure_env"
    "x_read_tile write_failure_env \<lparr>TileID = 7, Offset = 0, Length = 4, RunLength = 2\<rparr>
       \<noteq> None"
    "tiles empty_tree (0, 0, 7) = None" "\<not> x_stat_error write_failure_env (0, 0, 7)"
    "x_write_fails write_failure_env (0, 0, 7)"
    by (simp_all add: write_failure_env_def sample_header_def empty_tree_def)
  from convertToDirectory_failures [of write_failure_env empty_tree "(0, 0, 7)" AAAA 0 "[]"]
    sel
  show ?thesis by (simp add: list_all_iff)
qed

end
